theory Spec2Isabelle
  imports Main "HOL-Library.Sublist" "HOL-Library.AList"
begin

chapter \<open>A shallow embedding of the flux daemon, release engine, cluster adapter and bus\<close>

section \<open>Errors\<close>

text \<open>
  Go's \<^verbatim>\<open>error\<close> values, as far as the sources build them:
  \<^verbatim>\<open>errors.New(msg)\<close>, \<^verbatim>\<open>errors.Wrap(err, msg)\<close> and the wrapper
  \<^verbatim>\<open>platform.FatalError{err}\<close>. A nil error is \<open>None\<close> of \<open>err option\<close>.
  \<open>Panic\<close> is a run-time panic (a nil pointer dereference), which nothing in the
  sources recovers: the function does not return.
\<close>

datatype err =
    ErrorNew string
  | Wrap err string
  | FatalError err
  | Panic string

text \<open>The \<^verbatim>\<open>Error()\<close> method: the message of an error.\<close>

fun errorString :: "err \<Rightarrow> string" where
  "errorString (ErrorNew m) = m"
| "errorString (Wrap e m) = m @ '': '' @ errorString e"
| "errorString (FatalError e) = errorString e"
| "errorString (Panic m) = m"


section \<open>Package flux: identities and results\<close>

text \<open>
  Modelled from the spec: package \<^verbatim>\<open>flux\<close> (ServiceID, ServiceIDSet, ImageID,
  ServiceResult, ReleaseResult, Event) is not among the sources. A ServiceID is a pair
  (namespace, name); MakeServiceID builds it and Components takes it apart. An ImageID is
  a triple (registry, repository, tag). A ServiceIDSet is a set of ServiceIDs.
\<close>

type_synonym ServiceID = "string \<times> string"

type_synonym ImageID = "string \<times> string \<times> string"

definition MakeServiceID :: "string \<Rightarrow> string \<Rightarrow> ServiceID" where
  "MakeServiceID ns name = (ns, name)"

definition Components :: "ServiceID \<Rightarrow> string \<times> string" where
  "Components sid = sid"

datatype ReleaseStatus =
    ReleaseStatusPending
  | ReleaseStatusSuccess
  | ReleaseStatusFailed
  | ReleaseStatusSkipped
  | ReleaseStatusIgnored

record ContainerUpdate =
  cu_Container :: string
  cu_Current :: ImageID
  cu_Target :: ImageID

record ServiceResult =
  sr_Status :: ReleaseStatus
  sr_Error :: string
  sr_PerContainer :: "ContainerUpdate list"

text \<open>\<^verbatim>\<open>flux.ReleaseResult\<close>: a Go map from ServiceID to ServiceResult.\<close>

type_synonym ReleaseResult = "ServiceID \<rightharpoonup> ServiceResult"

section \<open>Package platform: services as observed, and the platform daemon\<close>

record Container =
  c_Name :: string
  c_Image :: string

text \<open>
  \<^verbatim>\<open>platform.ContainersOrExcuse\<close> is a struct of both fields; \<^verbatim>\<open>makeService\<close>
  fills one of them. \<^verbatim>\<open>ContainersOrNil\<close> reads the containers.
\<close>

record ContainersOrExcuse =
  coe_Excuse :: string
  coe_Containers :: "Container list"

text \<open>
  The status of a service. The source has the strings \<^verbatim>\<open>"unknown"\<close>, \<^verbatim>\<open>"ready"\<close>,
  \<^verbatim>\<open>"updating"\<close> and the two formats \<^verbatim>\<open>"%d out of %d updated"\<close> and
  \<^verbatim>\<open>"%d out of %d ready"\<close>; the formats are kept as constructors with their numbers.
\<close>

datatype ServiceStatusText =
    StatusUnknown
  | StatusReady
  | StatusUpdating
  | OutOfUpdated int int
  | OutOfReady int int

record Service =
  svc_ID :: ServiceID
  svc_IP :: string
  svc_Metadata :: "(string \<times> string) list"
  svc_Status :: ServiceStatusText
  svc_Containers :: ContainersOrExcuse

definition ContainersOrNil :: "Service \<Rightarrow> Container list" where
  "ContainersOrNil s = coe_Containers (svc_Containers s)"

record ImageDescription =
  id_ID :: ImageID

record fluxContainer =
  fc_Name :: string
  fc_Current :: ImageDescription
  fc_Available :: "ImageDescription list"

record ServiceStatus =
  ss_ID :: ServiceID
  ss_Containers :: "fluxContainer list"
  ss_Status :: ServiceStatusText

text \<open>
  \<^verbatim>\<open>containers2containers\<close>: \<^verbatim>\<open>flux.ParseImageID\<close> is a parameter; the source
  drops its error and keeps the ID it returns.
\<close>

definition containers2containers :: "(string \<Rightarrow> ImageID) \<Rightarrow> Container list \<Rightarrow> fluxContainer list" where
  "containers2containers ParseImageID cs =
     map (\<lambda>c. \<lparr>fc_Name = c_Name c,
                fc_Current = \<lparr>id_ID = ParseImageID (c_Image c)\<rparr>,
                fc_Available = []\<rparr>) cs"

text \<open>
  The \<^verbatim>\<open>Cluster\<close> interface of package platform: \<^verbatim>\<open>AllServices\<close> takes the
  namespace and the set of ignored IDs, and returns Go's pair of a list and an error
  (both are returned, so the model is a pair, not a sum).
\<close>

type_synonym ClusterAllServices = "string \<Rightarrow> ServiceID set \<Rightarrow> Service list \<times> err option"

definition getAllServicesExcept ::
  "ClusterAllServices \<Rightarrow> string \<Rightarrow> ServiceID set \<Rightarrow> Service list \<times> err option" where
  "getAllServicesExcept cluster maybeNamespace ignored = cluster maybeNamespace ignored"

definition getAllServices :: "ClusterAllServices \<Rightarrow> string \<Rightarrow> Service list \<times> err option" where
  "getAllServices cluster maybeNamespace = getAllServicesExcept cluster maybeNamespace {}"

text \<open>
  \<^verbatim>\<open>Daemon.ListServices\<close> of package platform: the error of \<^verbatim>\<open>getAllServices\<close> is
  bound and never read.
\<close>

definition ListServices ::
  "(string \<Rightarrow> ImageID) \<Rightarrow> ClusterAllServices \<Rightarrow> string \<Rightarrow> ServiceStatus list \<times> err option" where
  "ListServices ParseImageID cluster namespace =
     (let (services, err) = getAllServices cluster namespace;
          res = map (\<lambda>service.
                  \<lparr>ss_ID = svc_ID service,
                   ss_Containers = containers2containers ParseImageID (ContainersOrNil service),
                   ss_Status = svc_Status service\<rparr>) services
      in (res, None))"

section \<open>Package daemon: UpdateImages and the release event\<close>

datatype LogLevel = LogLevelInfo | LogLevelError

datatype EventType = EventRelease

text \<open>
  \<^verbatim>\<open>flux.Release\<close> and \<^verbatim>\<open>flux.Event\<close>; the release specification is passed
  through untouched, so its type is a parameter. Times are the values
  \<^verbatim>\<open>time.Now()\<close> returned.
\<close>

record 'spec Release =
  rel_StartedAt :: nat
  rel_EndedAt :: nat
  rel_Done :: bool
  rel_Status :: ReleaseStatus
  rel_Spec :: 'spec
  rel_Result :: ReleaseResult

record 'spec ReleaseEventMetadata =
  rem_Release :: "'spec Release"
  rem_Error :: string

record 'spec Event =
  ev_ServiceIDs :: "ServiceID list"
  ev_Type :: EventType
  ev_StartedAt :: nat
  ev_EndedAt :: nat
  ev_LogLevel :: LogLevel
  ev_Metadata :: "'spec ReleaseEventMetadata"

text \<open>
  The event \<^verbatim>\<open>logRelease\<close> builds. \<^verbatim>\<open>ReleaseResult.ServiceIDs\<close> (package flux) is a
  parameter.
\<close>

definition releaseEvent ::
  "(ReleaseResult \<Rightarrow> ServiceID list) \<Rightarrow> err option \<Rightarrow> 'spec Release \<Rightarrow> 'spec Event" where
  "releaseEvent serviceIDsOf executeErr release =
     (let errorMessage = (case executeErr of None \<Rightarrow> [] | Some e \<Rightarrow> errorString e);
          logLevel = (case executeErr of None \<Rightarrow> LogLevelInfo | Some e \<Rightarrow> LogLevelError);
          serviceIDs = serviceIDsOf (rel_Result release)
      in \<lparr>ev_ServiceIDs = serviceIDs,
          ev_Type = EventRelease,
          ev_StartedAt = rel_StartedAt release,
          ev_EndedAt = rel_EndedAt release,
          ev_LogLevel = logLevel,
          ev_Metadata = \<lparr>rem_Release = release, rem_Error = errorMessage\<rparr>\<rparr>)"

text \<open>
  \<^verbatim>\<open>Daemon.logRelease\<close>, with the event writer \<^verbatim>\<open>LogEvent\<close> as a parameter: it
  returns the release's error if there is one, otherwise the outcome of the logging.
\<close>

definition logRelease ::
  "('spec Event \<Rightarrow> err option) \<Rightarrow> (ReleaseResult \<Rightarrow> ServiceID list) \<Rightarrow>
   err option \<Rightarrow> 'spec Release \<Rightarrow> err option" where
  "logRelease logEvent serviceIDsOf executeErr release =
     (case logEvent (releaseEvent serviceIDsOf executeErr release) of
        Some err \<Rightarrow>
          (if executeErr = None then Some (Wrap err ''logging event'') else executeErr)
      | None \<Rightarrow> executeErr)"

text \<open>
  \<^verbatim>\<open>Daemon.LogEvent\<close> as the source has it: a stub returning nil.
\<close>

definition LogEvent :: "'spec Event \<Rightarrow> err option" where
  "LogEvent ev = None"

text \<open>
  \<^verbatim>\<open>Daemon.UpdateImages\<close>. The release engine \<^verbatim>\<open>release.Release\<close> is a parameter
  returning Go's pair (results, error); \<open>started\<close> and \<open>ended\<close> are the two readings of
  the clock.
\<close>

definition UpdateImages ::
  "('spec Event \<Rightarrow> err option) \<Rightarrow> (ReleaseResult \<Rightarrow> ServiceID list) \<Rightarrow>
   ('spec \<Rightarrow> ReleaseResult \<times> err option) \<Rightarrow> nat \<Rightarrow> nat \<Rightarrow> 'spec \<Rightarrow>
   ReleaseResult \<times> err option" where
  "UpdateImages logEvent serviceIDsOf engine started ended spec =
     (let (results, err) = engine spec;
          status = (if err \<noteq> None then ReleaseStatusFailed else ReleaseStatusSuccess);
          release = \<lparr>rel_StartedAt = started,
                     rel_EndedAt = ended,
                     rel_Done = True,
                     rel_Status = status,
                     rel_Spec = spec,
                     rel_Result = results\<rparr>;
          err' = logRelease logEvent serviceIDsOf err release
      in (results, err'))"


definition engineFails :: "string \<Rightarrow> ReleaseResult \<times> err option" where
  "engineFails spec = (Map.empty, Some (ErrorNew ''clone failed''))"



section \<open>Package kubernetes: the cluster adapter\<close>

subsection \<open>The objects the API server returns\<close>

text \<open>
  The fields of the Kubernetes objects that the sources read. Labels are a Go map from
  string to string; indexing it with a key it does not have gives the empty string.
\<close>

definition goLookup :: "(string \<rightharpoonup> string) \<Rightarrow> string \<Rightarrow> string" where
  "goLookup m k = (case m k of None \<Rightarrow> [] | Some v \<Rightarrow> v)"

record ObjectMeta =
  om_Name :: string
  om_Namespace :: string
  om_Labels :: "string \<rightharpoonup> string"

record v1Namespace =
  ns_Name :: string

record v1Service =
  s_Meta :: ObjectMeta
  s_ClusterIP :: string
  s_Selector :: "(string \<times> string) list"
  s_CreationTimestamp :: string
  s_ResourceVersion :: string
  s_UID :: string
  s_Type :: string

text \<open>
  A deployment and a replication controller. \<open>d_SpecReplicas\<close> is the number
  \<^verbatim>\<open>Spec.Replicas\<close> points to (the API server fills it in).
\<close>

record Deployment =
  d_Meta :: ObjectMeta
  d_TemplateLabels :: "string \<rightharpoonup> string"
  d_TemplateContainers :: "Container list"
  d_Generation :: int
  d_ObservedGeneration :: int
  d_UpdatedReplicas :: int
  d_SpecReplicas :: int

record ReplicationController =
  r_Meta :: ObjectMeta
  r_TemplateLabels :: "string \<rightharpoonup> string"
  r_TemplateContainers :: "Container list"
  r_Generation :: int
  r_ObservedGeneration :: int
  r_ReadyReplicas :: int
  r_Replicas :: int

text \<open>
  The client: each call gives an error or the objects. \<open>cl_ServicesGet ns name\<close> is
  \<^verbatim>\<open>Services(ns).Get(name)\<close>, the others are the \<^verbatim>\<open>List\<close> calls.
\<close>

record extendedClient =
  cl_Namespaces :: "err + v1Namespace list"
  cl_Services :: "string \<Rightarrow> err + v1Service list"
  cl_ServicesGet :: "string \<Rightarrow> string \<Rightarrow> err + v1Service"
  cl_Deployments :: "string \<Rightarrow> err + Deployment list"
  cl_ReplicationControllers :: "string \<Rightarrow> err + ReplicationController list"

subsection \<open>Add-ons\<close>

definition isAddon :: "ObjectMeta \<Rightarrow> bool" where
  "isAddon obj =
     (if om_Namespace obj \<noteq> ''kube-system'' then False
      else if goLookup (om_Labels obj) ''kubernetes.io/cluster-service'' = ''true'' \<or>
              goLookup (om_Labels obj) ''addonmanager.kubernetes.io/mode'' = ''EnsureExists'' \<or>
              goLookup (om_Labels obj) ''addonmanager.kubernetes.io/mode'' = ''Reconcile''
           then True
           else False)"

subsection \<open>Pod controllers and services\<close>

text \<open>Either a replication controller, a deployment, or neither.\<close>

record podController =
  pc_ReplicationController :: "ReplicationController option"
  pc_Deployment :: "Deployment option"

definition templateContainers :: "podController \<Rightarrow> Container list" where
  "templateContainers p =
     (case pc_Deployment p of
        Some d \<Rightarrow> d_TemplateContainers d
      | None \<Rightarrow>
          (case pc_ReplicationController p of
             Some r \<Rightarrow> r_TemplateContainers r
           | None \<Rightarrow> []))"

definition templateLabels :: "podController \<Rightarrow> (string \<rightharpoonup> string)" where
  "templateLabels p =
     (case pc_Deployment p of
        Some d \<Rightarrow> d_TemplateLabels d
      | None \<Rightarrow>
          (case pc_ReplicationController p of
             Some r \<Rightarrow> r_TemplateLabels r
           | None \<Rightarrow> Map.empty))"

definition matchedBy :: "podController \<Rightarrow> (string \<times> string) list \<Rightarrow> bool" where
  "matchedBy p selector =
     list_all (\<lambda>(k, v). goLookup (templateLabels p) k = v) selector"

definition status :: "podController \<Rightarrow> ServiceStatusText" where
  "status p =
     (case pc_Deployment p of
        Some d \<Rightarrow>
          (if d_ObservedGeneration d \<ge> d_Generation d then
             (if d_UpdatedReplicas d = d_SpecReplicas d then StatusReady
              else OutOfUpdated (d_UpdatedReplicas d) (d_SpecReplicas d))
           else StatusUpdating)
      | None \<Rightarrow>
          (case pc_ReplicationController p of
             Some r \<Rightarrow>
               (if r_ObservedGeneration r \<ge> r_Generation r then
                  (if r_ReadyReplicas r = r_Replicas r then StatusReady
                   else OutOfReady (r_ReadyReplicas r) (r_Replicas r))
                else StatusUpdating)
           | None \<Rightarrow> StatusUnknown))"

text \<open>
  Modelled from the spec: the error values \<^verbatim>\<open>ErrEmptySelector\<close>, \<^verbatim>\<open>ErrNoMatching\<close> and
  \<^verbatim>\<open>ErrMultipleMatching\<close> of package platform are not among the sources; they carry the
  spec's names \<open>empty-selector\<close>, \<open>no-matching\<close> and \<open>multiple-matching\<close>.
\<close>

definition ErrEmptySelector :: err where
  "ErrEmptySelector = ErrorNew ''empty-selector''"

definition ErrNoMatching :: err where
  "ErrNoMatching = ErrorNew ''no-matching''"

definition ErrMultipleMatching :: err where
  "ErrMultipleMatching = ErrorNew ''multiple-matching''"

definition matchController :: "v1Service \<Rightarrow> podController list \<Rightarrow> err + podController" where
  "matchController service controllers =
     (let selector = s_Selector service in
      if length selector = 0 then Inl ErrEmptySelector
      else
        (case filter (\<lambda>c. matchedBy c selector) controllers of
           [m] \<Rightarrow> Inr m
         | [] \<Rightarrow> Inl ErrNoMatching
         | _ \<Rightarrow> Inl ErrMultipleMatching))"

definition metadataForService :: "v1Service \<Rightarrow> (string \<times> string) list" where
  "metadataForService s =
     [(''created_at'', s_CreationTimestamp s),
      (''resource_version'', s_ResourceVersion s),
      (''uid'', s_UID s),
      (''type'', s_Type s)]"

definition makeService :: "string \<Rightarrow> v1Service \<Rightarrow> podController list \<Rightarrow> Service" where
  "makeService ns service controllers =
     (case matchController service controllers of
        Inl e \<Rightarrow>
          \<lparr>svc_ID = MakeServiceID ns (om_Name (s_Meta service)),
           svc_IP = s_ClusterIP service,
           svc_Metadata = metadataForService service,
           svc_Status = StatusUnknown,
           svc_Containers = \<lparr>coe_Excuse = errorString e, coe_Containers = []\<rparr>\<rparr>
      | Inr pc \<Rightarrow>
          \<lparr>svc_ID = MakeServiceID ns (om_Name (s_Meta service)),
           svc_IP = s_ClusterIP service,
           svc_Metadata = metadataForService service,
           svc_Status = status pc,
           svc_Containers = \<lparr>coe_Excuse = [], coe_Containers = templateContainers pc\<rparr>\<rparr>)"

definition podControllersInNamespace :: "extendedClient \<Rightarrow> string \<Rightarrow> err + podController list" where
  "podControllersInNamespace client namespace =
     (case cl_Deployments client namespace of
        Inl e \<Rightarrow> Inl (Wrap e ''collecting deployments'')
      | Inr deploylist \<Rightarrow>
          (case cl_ReplicationControllers client namespace of
             Inl e \<Rightarrow> Inl (Wrap e ''collecting replication controllers'')
           | Inr rclist \<Rightarrow>
               Inr (map (\<lambda>d. \<lparr>pc_ReplicationController = None, pc_Deployment = Some d\<rparr>)
                        (filter (\<lambda>d. \<not> isAddon (d_Meta d)) deploylist) @
                    map (\<lambda>r. \<lparr>pc_ReplicationController = Some r, pc_Deployment = None\<rparr>)
                        (filter (\<lambda>r. \<not> isAddon (r_Meta r)) rclist))))"

subsection \<open>AllServices and SomeServices\<close>

text \<open>The inner loop of both: the services of one namespace that are not add-ons.\<close>

definition servicesOf :: "string \<Rightarrow> podController list \<Rightarrow> v1Service list \<Rightarrow> Service list" where
  "servicesOf ns controllers items =
     map (\<lambda>service. makeService ns service controllers)
         (filter (\<lambda>service. \<not> isAddon (s_Meta service)) items)"

fun allServicesLoop :: "extendedClient \<Rightarrow> string list \<Rightarrow> Service list \<Rightarrow> err + Service list" where
  "allServicesLoop client [] res = Inr res"
| "allServicesLoop client (ns # rest) res =
     (case podControllersInNamespace client ns of
        Inl e \<Rightarrow> Inl (Wrap e (''getting pod controllers for namespace '' @ ns))
      | Inr controllers \<Rightarrow>
          (case cl_Services client ns of
             Inl e \<Rightarrow> Inl (Wrap e (''getting services for namespace '' @ ns))
           | Inr items \<Rightarrow>
               allServicesLoop client rest (res @ servicesOf ns controllers items)))"

definition AllServices :: "extendedClient \<Rightarrow> string \<Rightarrow> err + Service list" where
  "AllServices client namespace =
     (if namespace = [] then
        (case cl_Namespaces client of
           Inl e \<Rightarrow> Inl (Wrap e ''getting namespaces'')
         | Inr items \<Rightarrow> allServicesLoop client (map ns_Name items) [])
      else allServicesLoop client [namespace] [])"

text \<open>
  SomeServices first groups the names by namespace in a Go map, kept as an association
  list in the order the namespaces are first met (the run time may range over it in any
  order).
\<close>

fun namespacedServices ::
  "ServiceID list \<Rightarrow> (string \<times> string list) list \<Rightarrow> (string \<times> string list) list" where
  "namespacedServices [] m = m"
| "namespacedServices (sid # rest) m =
     (let (ns, name) = Components sid in
      namespacedServices rest
        (AList.update ns ((case map_of m ns of None \<Rightarrow> [] | Some names \<Rightarrow> names) @ [name]) m))"

text \<open>The services of one namespace that were asked for, exist and are not add-ons.\<close>

fun getServices ::
  "extendedClient \<Rightarrow> string \<Rightarrow> podController list \<Rightarrow> string list \<Rightarrow> Service list \<Rightarrow> Service list" where
  "getServices client ns controllers [] res = res"
| "getServices client ns controllers (name # rest) res =
     (case cl_ServicesGet client ns name of
        Inl e \<Rightarrow> getServices client ns controllers rest res
      | Inr service \<Rightarrow>
          (if isAddon (s_Meta service) then getServices client ns controllers rest res
           else getServices client ns controllers rest
                  (res @ [makeService ns service controllers])))"

fun someServicesLoop ::
  "extendedClient \<Rightarrow> (string \<times> string list) list \<Rightarrow> Service list \<Rightarrow> err + Service list" where
  "someServicesLoop client [] res = Inr res"
| "someServicesLoop client ((ns, names) # rest) res =
     (case podControllersInNamespace client ns of
        Inl e \<Rightarrow> Inl (Wrap e (''finding pod controllers for namespace '' @ ns))
      | Inr controllers \<Rightarrow>
          someServicesLoop client rest (getServices client ns controllers names res))"

definition SomeServices :: "extendedClient \<Rightarrow> ServiceID list \<Rightarrow> err + Service list" where
  "SomeServices client ids = someServicesLoop client (namespacedServices ids []) []"

subsection \<open>Export\<close>

text \<open>
  What is marshalled to YAML: one of the four kinds of object. The marshaller
  \<^verbatim>\<open>k8syaml.Marshal\<close> is a parameter.
\<close>

datatype k8sObject =
    NamespaceObject v1Namespace
  | DeploymentObject Deployment
  | ReplicationControllerObject ReplicationController
  | ServiceObject v1Service

definition newline :: string where
  "newline = [CHR 0x0A]"

definition yamlHeader :: "string \<Rightarrow> string \<Rightarrow> string" where
  "yamlHeader apiVersion kind =
     ''---'' @ newline @ ''apiVersion: '' @ apiVersion @ newline @ ''kind: '' @ kind @ newline"

definition appendYAML ::
  "(k8sObject \<Rightarrow> err + string) \<Rightarrow> string \<Rightarrow> string \<Rightarrow> string \<Rightarrow> k8sObject \<Rightarrow> err + string" where
  "appendYAML marshal buffer apiVersion kind object =
     (case marshal object of
        Inl e \<Rightarrow> Inl e
      | Inr yamlBytes \<Rightarrow> Inr (buffer @ yamlHeader apiVersion kind @ yamlBytes))"

text \<open>
  The three inner loops of Export have one shape: skip the add-ons, append the others.
  \<open>meta\<close> reads the object's metadata, \<open>toObject\<close> makes it an object to marshal, and \<open>msg\<close> is
  the message a marshalling error is wrapped with.
\<close>

fun exportLoop ::
  "(k8sObject \<Rightarrow> err + string) \<Rightarrow> string \<Rightarrow> string \<Rightarrow> string \<Rightarrow>
   ('a \<Rightarrow> ObjectMeta) \<Rightarrow> ('a \<Rightarrow> k8sObject) \<Rightarrow> 'a list \<Rightarrow> string \<Rightarrow> err + string" where
  "exportLoop marshal apiVersion kind msg meta toObject [] config = Inr config"
| "exportLoop marshal apiVersion kind msg meta toObject (x # rest) config =
     (if isAddon (meta x) then exportLoop marshal apiVersion kind msg meta toObject rest config
      else
        (case appendYAML marshal config apiVersion kind (toObject x) of
           Inl e \<Rightarrow> Inl (Wrap e msg)
         | Inr config' \<Rightarrow> exportLoop marshal apiVersion kind msg meta toObject rest config'))"

fun exportNamespaces ::
  "extendedClient \<Rightarrow> (k8sObject \<Rightarrow> err + string) \<Rightarrow> v1Namespace list \<Rightarrow> string \<Rightarrow> err + string" where
  "exportNamespaces client marshal [] config = Inr config"
| "exportNamespaces client marshal (ns # rest) config =
     (case appendYAML marshal config ''v1'' ''Namespace'' (NamespaceObject ns) of
        Inl e \<Rightarrow> Inl (Wrap e ''marshalling namespace to YAML'')
      | Inr config1 \<Rightarrow>
     (case cl_Deployments client (ns_Name ns) of
        Inl e \<Rightarrow> Inl (Wrap e ''getting deployments'')
      | Inr deployments \<Rightarrow>
     (case exportLoop marshal ''extensions/v1beta1'' ''Deployment''
             ''marshalling deployment to YAML'' d_Meta DeploymentObject deployments config1 of
        Inl e \<Rightarrow> Inl e
      | Inr config2 \<Rightarrow>
     (case cl_ReplicationControllers client (ns_Name ns) of
        Inl e \<Rightarrow> Inl (Wrap e ''getting replication controllers'')
      | Inr rcs \<Rightarrow>
     (case exportLoop marshal ''v1'' ''ReplicationController''
             ''marshalling replication controller to YAML'' r_Meta ReplicationControllerObject
             rcs config2 of
        Inl e \<Rightarrow> Inl e
      | Inr config3 \<Rightarrow>
     (case cl_Services client (ns_Name ns) of
        Inl e \<Rightarrow> Inl (Wrap e ''getting services'')
      | Inr services \<Rightarrow>
     (case exportLoop marshal ''v1'' ''Service'' ''marshalling service to YAML''
             s_Meta ServiceObject services config3 of
        Inl e \<Rightarrow> Inl e
      | Inr config4 \<Rightarrow> exportNamespaces client marshal rest config4)))))))"

definition Export :: "extendedClient \<Rightarrow> (k8sObject \<Rightarrow> err + string) \<Rightarrow> err + string" where
  "Export client marshal =
     (case cl_Namespaces client of
        Inl e \<Rightarrow> Inl (Wrap e ''getting namespaces'')
      | Inr items \<Rightarrow> exportNamespaces client marshal items [])"

text \<open>
  One document of the bundle: its API version, kind, object and YAML. An object of the
  bundle is an add-on when it is a deployment, replication controller or service that
  \<open>isAddon\<close> recognises; a namespace object is in no namespace.
\<close>

definition renderDoc :: "string \<times> string \<times> k8sObject \<times> string \<Rightarrow> string" where
  "renderDoc doc =
     (case doc of (apiVersion, kind, object, yamlBytes) \<Rightarrow>
        yamlHeader apiVersion kind @ yamlBytes)"

fun isAddonObject :: "k8sObject \<Rightarrow> bool" where
  "isAddonObject (NamespaceObject n) = False"
| "isAddonObject (DeploymentObject d) = isAddon (d_Meta d)"
| "isAddonObject (ReplicationControllerObject r) = isAddon (r_Meta r)"
| "isAddonObject (ServiceObject s) = isAddon (s_Meta s)"

text \<open>A document of the bundle is well formed: it holds the YAML of its object, and the
  object is not an add-on.\<close>

definition exportedDoc :: "(k8sObject \<Rightarrow> err + string) \<Rightarrow> string \<times> string \<times> k8sObject \<times> string \<Rightarrow> bool" where
  "exportedDoc marshal doc =
     (case doc of (apiVersion, kind, object, yamlBytes) \<Rightarrow>
        marshal object = Inr yamlBytes \<and> \<not> isAddonObject object)"

subsection \<open>Sync\<close>

text \<open>
  \<^verbatim>\<open>platform.SyncDef\<close>, \<^verbatim>\<open>platform.SyncAction\<close> and \<^verbatim>\<open>platform.SyncError\<close>, with the
  fields Sync reads. A SyncError is a Go map from resource ID to error, kept as an
  association list so that its length can be taken.
\<close>

record SyncAction =
  sa_ResourceID :: string
  sa_Delete :: string
  sa_Apply :: string

record SyncDef =
  sd_Actions :: "SyncAction list"

type_synonym SyncError = "(string \<times> err) list"

record apiObject =
  ao_bytes :: string
  ao_Version :: string
  ao_Kind :: string
  ao_Name :: string
  ao_Namespace :: string

text \<open>
  \<^verbatim>\<open>definitionObj\<close>: \<^verbatim>\<open>yaml.Unmarshal\<close> is a parameter that gives an error or the four
  fields it fills in (apiVersion, kind, metadata.name, metadata.namespace).
\<close>

type_synonym yamlUnmarshal = "string \<Rightarrow> err + string \<times> string \<times> string \<times> string"

definition definitionObj :: "yamlUnmarshal \<Rightarrow> string \<Rightarrow> err + apiObject" where
  "definitionObj unmarshal bytes =
     (case unmarshal bytes of
        Inl e \<Rightarrow> Inl e
      | Inr (version, kind, name, namespace) \<Rightarrow>
          Inr \<lparr>ao_bytes = bytes, ao_Version = version, ao_Kind = kind,
               ao_Name = name, ao_Namespace = namespace\<rparr>)"

text \<open>
  The \<^verbatim>\<open>Applier\<close> interface, acting on a state \<open>'s\<close> of its own (the cluster as
  \<^verbatim>\<open>kubectl\<close> sees it).
\<close>

record 's Applier =
  ap_Delete :: "apiObject \<Rightarrow> 's \<Rightarrow> err option \<times> 's"
  ap_Apply :: "apiObject \<Rightarrow> 's \<Rightarrow> err option \<times> 's"

text \<open>
  The body of the loop over the actions: the error to record for the action, if any
  (after which the loop continues with the next action), and the applier's new state.
\<close>

definition syncAction ::
  "yamlUnmarshal \<Rightarrow> 's Applier \<Rightarrow> SyncAction \<Rightarrow> 's \<Rightarrow> err option \<times> 's" where
  "syncAction unmarshal applier action s =
     (let (err1, s1) =
            (if length (sa_Delete action) > 0 then
               (case definitionObj unmarshal (sa_Delete action) of
                  Inl e \<Rightarrow> (Some e, s)
                | Inr obj \<Rightarrow> ap_Delete applier obj s)
             else (None, s))
      in case err1 of
           Some e \<Rightarrow> (Some e, s1)
         | None \<Rightarrow>
             (if length (sa_Apply action) > 0 then
                (case definitionObj unmarshal (sa_Apply action) of
                   Inl e \<Rightarrow> (Some e, s1)
                 | Inr obj \<Rightarrow> ap_Apply applier obj s1)
              else (None, s1)))"

fun syncActions ::
  "yamlUnmarshal \<Rightarrow> 's Applier \<Rightarrow> SyncAction list \<Rightarrow> 's \<Rightarrow> SyncError \<Rightarrow> SyncError \<times> 's" where
  "syncActions unmarshal applier [] s errs = (errs, s)"
| "syncActions unmarshal applier (action # rest) s errs =
     (case syncAction unmarshal applier action s of
        (Some e, s') \<Rightarrow>
          syncActions unmarshal applier rest s' (AList.update (sa_ResourceID action) e errs)
      | (None, s') \<Rightarrow> syncActions unmarshal applier rest s' errs)"

text \<open>
  The values the closure sends on \<^verbatim>\<open>errc\<close> once the actions are done, in order:
  \<^verbatim>\<open>errs\<close> if it is not empty, and then nil in every case.
\<close>

definition closureSends :: "SyncError \<Rightarrow> SyncError option list" where
  "closureSends errs = (if length errs > 0 then [Some errs] else []) @ [None]"

text \<open>
  The cluster handle, as far as Sync is concerned: the applier's state, and whether the
  goroutine \<^verbatim>\<open>loop\<close> is stuck inside a closure. Both channels are unbuffered.
  \<^item> \<^verbatim>\<open>c.actionc <- f\<close> completes only when \<^verbatim>\<open>loop\<close> receives, which it does only
    between closures: with \<^verbatim>\<open>loop\<close> stuck, Sync never returns (the result \<open>None\<close>).
  \<^item> Sync receives from \<^verbatim>\<open>errc\<close> once and returns what it received: the first value
    the closure sends.
  \<^item> \<^verbatim>\<open>errc\<close> is made by this call and has no other receiver, so a second send of the
    closure never completes, and \<^verbatim>\<open>loop\<close>, which runs the closure, is stuck from then
    on.
\<close>

record 's Cluster =
  c_applierState :: 's
  c_loopStuck :: bool

definition Sync ::
  "yamlUnmarshal \<Rightarrow> 's Applier \<Rightarrow> SyncDef \<Rightarrow> 's Cluster \<Rightarrow> SyncError option option \<times> 's Cluster" where
  "Sync unmarshal applier spec c =
     (if c_loopStuck c then (None, c)
      else
        (let (errs, s') = syncActions unmarshal applier (sd_Actions spec) (c_applierState c) []
         in case closureSends errs of
              [] \<Rightarrow> (None, \<lparr>c_applierState = s', c_loopStuck = False\<rparr>)
            | reply # later \<Rightarrow>
                (Some reply, \<lparr>c_applierState = s', c_loopStuck = (later \<noteq> [])\<rparr>)))"



text \<open>
  An applier for the examples: its state is the list of the calls made so far, and a call
  fails when the object's name is \<open>''bad''\<close>.
\<close>

datatype applierCall = Deleted apiObject | Applied apiObject

definition recordingApplier :: "applierCall list Applier" where
  "recordingApplier =
     \<lparr>ap_Delete = (\<lambda>obj calls.
         (if ao_Name obj = ''bad'' then Some (ErrorNew ''rejected'') else None,
          calls @ [Deleted obj])),
      ap_Apply = (\<lambda>obj calls.
         (if ao_Name obj = ''bad'' then Some (ErrorNew ''rejected'') else None,
          calls @ [Applied obj]))\<rparr>"

text \<open>
  A stand-in for the YAML parser in the examples: a manifest is the name of its resource,
  in namespace \<open>default\<close>, except for the manifest of the add-on \<open>kube-dns\<close>.
\<close>

definition addonManifest :: string where
  "addonManifest =
     ''apiVersion: v1'' @ newline @
     ''kind: Service'' @ newline @
     ''metadata:'' @ newline @
     ''  name: kube-dns'' @ newline @
     ''  namespace: kube-system'' @ newline @
     ''  labels:'' @ newline @
     ''    kubernetes.io/cluster-service: true'' @ newline"

definition exUnmarshal :: yamlUnmarshal where
  "exUnmarshal bytes =
     (if bytes = addonManifest then Inr (''v1'', ''Service'', ''kube-dns'', ''kube-system'')
      else Inr (''v1'', ''Service'', bytes, ''default''))"

definition exBatch :: SyncDef where
  "exBatch =
     \<lparr>sd_Actions =
        [\<lparr>sa_ResourceID = ''default:service/one'', sa_Delete = [], sa_Apply = ''one''\<rparr>,
         \<lparr>sa_ResourceID = ''default:service/bad'', sa_Delete = [], sa_Apply = ''bad''\<rparr>,
         \<lparr>sa_ResourceID = ''default:service/three'', sa_Delete = [], sa_Apply = ''three''\<rparr>]\<rparr>"

definition exCluster :: "applierCall list Cluster" where
  "exCluster = \<lparr>c_applierState = [], c_loopStuck = False\<rparr>"

text \<open>
  A cluster for the examples: the namespace \<open>kube-system\<close> with the add-on service
  \<open>kube-dns\<close> and the service \<open>dashboard\<close>, which is no add-on; a stand-in for the YAML
  marshaller; and a batch that applies the manifest of the add-on.
\<close>

definition kubeDNS :: v1Service where
  "kubeDNS =
     \<lparr>s_Meta = \<lparr>om_Name = ''kube-dns'', om_Namespace = ''kube-system'',
                 om_Labels = [''kubernetes.io/cluster-service'' \<mapsto> ''true'']\<rparr>,
      s_ClusterIP = ''10.0.0.10'', s_Selector = [(''k8s-app'', ''kube-dns'')],
      s_CreationTimestamp = ''t0'', s_ResourceVersion = ''1'', s_UID = ''u1'',
      s_Type = ''ClusterIP''\<rparr>"

definition dashboard :: v1Service where
  "dashboard =
     \<lparr>s_Meta = \<lparr>om_Name = ''dashboard'', om_Namespace = ''kube-system'',
                 om_Labels = [''app'' \<mapsto> ''dashboard'']\<rparr>,
      s_ClusterIP = ''10.0.0.20'', s_Selector = [(''app'', ''dashboard'')],
      s_CreationTimestamp = ''t1'', s_ResourceVersion = ''2'', s_UID = ''u2'',
      s_Type = ''ClusterIP''\<rparr>"

definition exClient :: extendedClient where
  "exClient =
     \<lparr>cl_Namespaces = Inr [\<lparr>ns_Name = ''kube-system''\<rparr>],
      cl_Services = (\<lambda>ns. if ns = ''kube-system'' then Inr [kubeDNS, dashboard] else Inr []),
      cl_ServicesGet = (\<lambda>ns name.
         if ns = ''kube-system'' \<and> name = ''kube-dns'' then Inr kubeDNS
         else if ns = ''kube-system'' \<and> name = ''dashboard'' then Inr dashboard
         else Inl (ErrorNew ''not found'')),
      cl_Deployments = (\<lambda>ns. Inr []),
      cl_ReplicationControllers = (\<lambda>ns. Inr [])\<rparr>"

fun exMarshal :: "k8sObject \<Rightarrow> err + string" where
  "exMarshal (NamespaceObject n) = Inr (''name: '' @ ns_Name n)"
| "exMarshal (DeploymentObject d) = Inr (''name: '' @ om_Name (d_Meta d))"
| "exMarshal (ReplicationControllerObject r) = Inr (''name: '' @ om_Name (r_Meta r))"
| "exMarshal (ServiceObject s) = Inr (''name: '' @ om_Name (s_Meta s))"

definition addonBatch :: SyncDef where
  "addonBatch =
     \<lparr>sd_Actions =
        [\<lparr>sa_ResourceID = ''kube-system:service/kube-dns'', sa_Delete = [],
          sa_Apply = addonManifest\<rparr>]\<rparr>"

section \<open>Package release: the release context\<close>

text \<open>
  \<^verbatim>\<open>ServiceUpdate\<close>: the fields the sources read and write. \<open>su_Service\<close> is
  \<open>None\<close> until SelectServices stores the observed service.
\<close>

record ServiceUpdate =
  su_ServiceID :: ServiceID
  su_ManifestPath :: string
  su_ManifestBytes :: string
  su_Service :: "Service option"

text \<open>\<^verbatim>\<open>strings.Join\<close>, and a ServiceID printed with \<^verbatim>\<open>%s\<close>.\<close>

fun joinStrings :: "string \<Rightarrow> string list \<Rightarrow> string" where
  "joinStrings sep [] = []"
| "joinStrings sep [x] = x"
| "joinStrings sep (x # y # ys) = x @ sep @ joinStrings sep (y # ys)"

definition ServiceIDString :: "ServiceID \<Rightarrow> string" where
  "ServiceIDString sid = fst sid @ ''/'' @ snd sid"

definition multipleFilesError :: "ServiceID \<Rightarrow> string list \<Rightarrow> err" where
  "multipleFilesError sid paths =
     ErrorNew (''multiple resource files found for service '' @ ServiceIDString sid @ '': '' @
               joinStrings '', '' paths)"

text \<open>
  The loop of \<^verbatim>\<open>FindDefinedServices\<close> over the map the cluster adapter found. A Go
  map is ranged over in an order the run time chooses: the association list is the map in
  the order of that run. \<open>readFile\<close> is \<^verbatim>\<open>ioutil.ReadFile\<close>.
\<close>

fun findDefinedLoop ::
  "(string \<Rightarrow> err + string) \<Rightarrow> (ServiceID \<times> string list) list \<Rightarrow> ServiceUpdate list \<Rightarrow>
   err + ServiceUpdate list" where
  "findDefinedLoop readFile [] defined = Inr defined"
| "findDefinedLoop readFile ((sid, paths) # rest) defined =
     (case paths of
        [p] \<Rightarrow>
          (case readFile p of
             Inl e \<Rightarrow> Inl e
           | Inr def \<Rightarrow>
               findDefinedLoop readFile rest
                 (defined @ [\<lparr>su_ServiceID = sid, su_ManifestPath = p,
                              su_ManifestBytes = def, su_Service = None\<rparr>]))
      | _ \<Rightarrow> Inl (multipleFilesError sid paths))"

text \<open>
  \<^verbatim>\<open>ReleaseContext.FindDefinedServices\<close>; \<open>found\<close> is what
  \<^verbatim>\<open>rc.Cluster.FindDefinedServices(rc.RepoPath())\<close> returned.
\<close>

definition FindDefinedServices ::
  "err + (ServiceID \<times> string list) list \<Rightarrow> (string \<Rightarrow> err + string) \<Rightarrow> err + ServiceUpdate list" where
  "FindDefinedServices found readFile =
     (case found of
        Inl e \<Rightarrow> Inl e
      | Inr services \<Rightarrow> findDefinedLoop readFile services [])"

text \<open>
  The first loop of \<^verbatim>\<open>SelectServices\<close>: it records a result for every defined service
  that is selected, and collects the pending ones in \<open>updateMap\<close> and \<open>ids\<close>.
  \<open>updateMap\<close> is a Go map, kept as an association list.
\<close>

definition skippedResult :: "string \<Rightarrow> ServiceResult" where
  "skippedResult msg = \<lparr>sr_Status = ReleaseStatusSkipped, sr_Error = msg, sr_PerContainer = []\<rparr>"

definition pendingResult :: ServiceResult where
  "pendingResult = \<lparr>sr_Status = ReleaseStatusPending, sr_Error = [], sr_PerContainer = []\<rparr>"

fun selectLoop ::
  "ServiceID set option \<Rightarrow> ServiceID set \<Rightarrow> ServiceID set \<Rightarrow> ServiceUpdate list \<Rightarrow>
   ReleaseResult \<times> (ServiceID \<times> ServiceUpdate) list \<times> ServiceID list \<Rightarrow>
   ReleaseResult \<times> (ServiceID \<times> ServiceUpdate) list \<times> ServiceID list" where
  "selectLoop only locked excluded [] acc = acc"
| "selectLoop only locked excluded (s # rest) (results, updateMap, ids) =
     (if only = None \<or> su_ServiceID s \<in> the only then
        (if su_ServiceID s \<in> excluded then
           selectLoop only locked excluded rest
             (results(su_ServiceID s \<mapsto> skippedResult ''excluded''), updateMap, ids)
         else if su_ServiceID s \<in> locked then
           selectLoop only locked excluded rest
             (results(su_ServiceID s \<mapsto> skippedResult ''locked''), updateMap, ids)
         else
           selectLoop only locked excluded rest
             (results(su_ServiceID s \<mapsto> pendingResult),
              AList.update (su_ServiceID s) s updateMap,
              ids @ [su_ServiceID s]))
      else selectLoop only locked excluded rest (results, updateMap, ids))"

text \<open>
  The second loop: each service the cluster returned is stored in its update, which moves
  from \<open>updateMap\<close> to \<open>updates\<close>. \<^verbatim>\<open>updateMap[service.ID]\<close> is a nil pointer for an
  ID that is not a key, and the assignment through it panics.
\<close>

fun correlate ::
  "Service list \<Rightarrow> (ServiceID \<times> ServiceUpdate) list \<Rightarrow> ServiceUpdate list \<Rightarrow>
   err + (ServiceUpdate list \<times> (ServiceID \<times> ServiceUpdate) list)" where
  "correlate [] updateMap updates = Inr (updates, updateMap)"
| "correlate (service # rest) updateMap updates =
     (case map_of updateMap (svc_ID service) of
        None \<Rightarrow> Inl (Panic ''nil pointer dereference'')
      | Some update \<Rightarrow>
          correlate rest (AList.delete (svc_ID service) updateMap)
            (updates @ [update\<lparr>su_Service := Some service\<rparr>]))"

text \<open>The third loop: what is left in \<open>updateMap\<close> is not running.\<close>

definition notRunningResult :: "bool \<Rightarrow> ServiceResult" where
  "notRunningResult requested =
     \<lparr>sr_Status = (if requested then ReleaseStatusSkipped else ReleaseStatusIgnored),
      sr_Error = ''not in running system'',
      sr_PerContainer = []\<rparr>"

fun markLeftover ::
  "bool \<Rightarrow> (ServiceID \<times> ServiceUpdate) list \<Rightarrow> ReleaseResult \<Rightarrow> ReleaseResult" where
  "markLeftover requested [] results = results"
| "markLeftover requested ((sid, u) # rest) results =
     markLeftover requested rest (results(sid \<mapsto> notRunningResult requested))"

text \<open>
  \<^verbatim>\<open>ReleaseContext.SelectServices\<close>. \<open>included\<close> is \<open>None\<close> for a nil slice.
  \<open>someServices\<close> is \<^verbatim>\<open>rc.Cluster.SomeServices\<close>. The map \<open>results\<close> is the caller's and
  is updated in place, so the model returns it beside the function's own result, also
  when that is an error.
\<close>

definition SelectServices ::
  "err + (ServiceID \<times> string list) list \<Rightarrow> (string \<Rightarrow> err + string) \<Rightarrow>
   (ServiceID list \<Rightarrow> err + Service list) \<Rightarrow>
   ServiceID list option \<Rightarrow> ServiceID set \<Rightarrow> ServiceID set \<Rightarrow> ReleaseResult \<Rightarrow>
   (err + ServiceUpdate list) \<times> ReleaseResult" where
  "SelectServices found readFile someServices included locked excluded results =
     (case FindDefinedServices found readFile of
        Inl e \<Rightarrow> (Inl e, results)
      | Inr defined \<Rightarrow>
          (let only = map_option set included;
               (results1, updateMap, ids) =
                  selectLoop only locked excluded defined (results, [], [])
           in case someServices ids of
                Inl e \<Rightarrow> (Inl e, results1)
              | Inr services \<Rightarrow>
                  (case correlate services updateMap [] of
                     Inl e \<Rightarrow> (Inl e, results1)
                   | Inr (updates, leftover) \<Rightarrow>
                       (Inr updates, markLeftover (included \<noteq> None) leftover results1))))"

subsection \<open>Writing the updates back\<close>

text \<open>
  The files of the working copy: a mode (\<^verbatim>\<open>os.FileMode\<close>) and the bytes. \<open>fs_denied\<close>
  gives the error with which opening a path for writing fails, if it does.
\<close>

record FileEntry =
  f_mode :: nat
  f_bytes :: string

record FileSystem =
  fs_files :: "string \<rightharpoonup> FileEntry"
  fs_denied :: "string \<Rightarrow> err option"

text \<open>\<^verbatim>\<open>os.Stat\<close>, as far as the source reads it: the mode of an existing file.\<close>

definition Stat :: "FileSystem \<Rightarrow> string \<Rightarrow> err + nat" where
  "Stat fs path =
     (case fs_files fs path of
        None \<Rightarrow> Inl (ErrorNew (''stat '' @ path @ '': no such file or directory''))
      | Some f \<Rightarrow> Inr (f_mode f))"

text \<open>
  \<^verbatim>\<open>ioutil.WriteFile(filename, data, perm)\<close>: a file that does not exist is created
  with mode \<open>perm\<close>; one that exists is truncated and written, its mode as it was.
\<close>

definition WriteFile :: "FileSystem \<Rightarrow> string \<Rightarrow> string \<Rightarrow> nat \<Rightarrow> err option \<times> FileSystem" where
  "WriteFile fs path data perm =
     (case fs_denied fs path of
        Some e \<Rightarrow> (Some e, fs)
      | None \<Rightarrow>
          (None,
           fs\<lparr>fs_files := (fs_files fs)(path \<mapsto>
                 (case fs_files fs path of
                    None \<Rightarrow> \<lparr>f_mode = perm, f_bytes = data\<rparr>
                  | Some f \<Rightarrow> f\<lparr>f_bytes := data\<rparr>))\<rparr>))"

fun writeUpdates :: "ServiceUpdate list \<Rightarrow> FileSystem \<Rightarrow> err option \<times> FileSystem" where
  "writeUpdates [] fs = (None, fs)"
| "writeUpdates (update # rest) fs =
     (case Stat fs (su_ManifestPath update) of
        Inl e \<Rightarrow> (Some e, fs)
      | Inr mode \<Rightarrow>
          (case WriteFile fs (su_ManifestPath update) (su_ManifestBytes update) mode of
             (Some e, fs') \<Rightarrow> (Some e, fs')
           | (None, fs') \<Rightarrow> writeUpdates rest fs'))"

text \<open>
  The IDs the first loop of SelectServices collects: the argument of the cluster query.
\<close>

definition candidateIDs ::
  "ServiceID list option \<Rightarrow> ServiceID set \<Rightarrow> ServiceID set \<Rightarrow> ServiceUpdate list \<Rightarrow> ServiceID list" where
  "candidateIDs included locked excluded defined =
     snd (snd (selectLoop (map_option set included) locked excluded defined (Map.empty, [], [])))"

subsection \<open>A working copy and a cluster for the examples\<close>

text \<open>
  Two services are defined, \<open>a/x\<close> and \<open>a/y\<close>; only \<open>a/x\<close> runs in the cluster.
  \<open>dupFound\<close> has two files for \<open>a/y\<close>, and \<open>unreadable\<close> is a working copy whose
  files cannot be read.
\<close>

definition exFound :: "err + (ServiceID \<times> string list) list" where
  "exFound = Inr [((''a'', ''x''), [''a/x.yaml'']), ((''a'', ''y''), [''a/y.yaml''])]"

definition exReadFile :: "string \<Rightarrow> err + string" where
  "exReadFile p = Inr (''manifest '' @ p)"

definition exDefined :: "ServiceUpdate list" where
  "exDefined =
     [\<lparr>su_ServiceID = (''a'', ''x''), su_ManifestPath = ''a/x.yaml'',
       su_ManifestBytes = ''manifest a/x.yaml'', su_Service = None\<rparr>,
      \<lparr>su_ServiceID = (''a'', ''y''), su_ManifestPath = ''a/y.yaml'',
       su_ManifestBytes = ''manifest a/y.yaml'', su_Service = None\<rparr>]"

definition exService :: "ServiceID \<Rightarrow> Service" where
  "exService sid =
     \<lparr>svc_ID = sid, svc_IP = ''10.0.0.1'', svc_Metadata = [], svc_Status = StatusReady,
      svc_Containers = \<lparr>coe_Excuse = [], coe_Containers = []\<rparr>\<rparr>"

definition exRunning :: "ServiceID list \<Rightarrow> err + Service list" where
  "exRunning ids = Inr (map exService (filter (\<lambda>sid. sid = (''a'', ''x'')) ids))"

definition dupFound :: "err + (ServiceID \<times> string list) list" where
  "dupFound = Inr [((''a'', ''x''), [''a/x.yaml'']), ((''a'', ''y''), [''a/y.yaml'', ''b/y.yaml''])]"

definition unreadable :: "string \<Rightarrow> err + string" where
  "unreadable p = Inl (ErrorNew (''open '' @ p @ '': permission denied''))"

definition exContents :: "string \<Rightarrow> string" where
  "exContents p = ''manifest '' @ p"

definition exFS :: FileSystem where
  "exFS = \<lparr>fs_files = [''a/x.yaml'' \<mapsto> \<lparr>f_mode = 420, f_bytes = ''image: r/i:1''\<rparr>],
           fs_denied = (\<lambda>p. None)\<rparr>"

definition exUpdate :: ServiceUpdate where
  "exUpdate = \<lparr>su_ServiceID = (''a'', ''x''), su_ManifestPath = ''a/x.yaml'',
               su_ManifestBytes = ''image: r/i:2'', su_Service = None\<rparr>"

section \<open>Package nats: a subscription on the bus\<close>



text \<open>
  What Subscribe sets up for one daemon, as the caller and the bus see it: the unique ID
  of the subscription, whether the bus subscription and the channel \<^verbatim>\<open>requests\<close> are
  still open, whether the goroutine of the subscription still runs, the values delivered
  on \<^verbatim>\<open>done\<close> so far, and the number of kicks counted in the metrics.
\<close>

record Session =
  sess_myID :: string
  sess_subscribed :: bool
  sess_requestsOpen :: bool
  sess_running :: bool
  sess_done :: "err option list"
  sess_kicks :: nat




definition onForceReconnect :: "Session \<Rightarrow> Session" where
  "onForceReconnect sess =
     sess\<lparr>sess_subscribed := False, sess_requestsOpen := False, sess_running := False,
          sess_done := sess_done sess @ [None]\<rparr>"








section \<open>Theorems\<close>

subsection \<open>The daemon facade\<close>



text \<open>With the daemon's own event writer, which never fails, UpdateImages returns the
  engine's error.\<close>

lemma UpdateImages_stub_writer:
  "snd (UpdateImages LogEvent serviceIDsOf engine started ended spec) = snd (engine spec)"
  by (cases "engine spec") (simp add: UpdateImages_def logRelease_def LogEvent_def)



subsection \<open>The platform daemon\<close>

text \<open>
  C10: for every namespace, ListServices of the platform daemon returns a nil error, also
  when the cluster's enumeration returned an error; the list is built from the services
  the enumeration returned.
\<close>

theorem ListServices_discards_error:
  "snd (ListServices ParseImageID cluster namespace) = None \<and>
   fst (ListServices ParseImageID cluster namespace) =
     map (\<lambda>service.
            \<lparr>ss_ID = svc_ID service,
             ss_Containers = containers2containers ParseImageID (ContainersOrNil service),
             ss_Status = svc_Status service\<rparr>)
         (fst (cluster namespace {}))"
  by (cases "cluster namespace {}")
     (simp add: ListServices_def getAllServices_def getAllServicesExcept_def)

subsection \<open>Selecting services\<close>

lemma selectLoop_dom:
  "dom (fst (selectLoop only locked excluded defined (results, updateMap, ids))) =
     dom results \<union> {sid \<in> su_ServiceID ` set defined. only = None \<or> sid \<in> the only}"
proof (induction defined arbitrary: results updateMap ids)
  case Nil
  then show ?case by simp
next
  case (Cons s rest)
  show ?case
  proof (cases "only = None \<or> su_ServiceID s \<in> the only")
    case True
    then obtain v um' ids' where
      "selectLoop only locked excluded (s # rest) (results, updateMap, ids) =
       selectLoop only locked excluded rest (results(su_ServiceID s \<mapsto> v), um', ids')"
      by (cases "su_ServiceID s \<in> excluded"; cases "su_ServiceID s \<in> locked") auto
    then have "dom (fst (selectLoop only locked excluded (s # rest) (results, updateMap, ids))) =
        insert (su_ServiceID s) (dom results) \<union>
          {sid \<in> su_ServiceID ` set rest. only = None \<or> sid \<in> the only}"
      by (simp only: Cons.IH dom_fun_upd) simp
    then show ?thesis using True by auto
  next
    case False
    then have "dom (fst (selectLoop only locked excluded (s # rest) (results, updateMap, ids))) =
        dom results \<union> {sid \<in> su_ServiceID ` set rest. only = None \<or> sid \<in> the only}"
      by (simp only: selectLoop.simps if_False Cons.IH)
    then show ?thesis using False by auto
  qed
qed

lemma selectLoop_keys:
  "selectLoop only locked excluded defined (results, updateMap, ids) = (results1, updateMap1, ids1) \<Longrightarrow>
   fst ` set updateMap = set ids \<Longrightarrow> fst ` set updateMap1 = set ids1"
proof (induction defined arbitrary: results updateMap ids)
  case Nil
  then show ?case by simp
next
  case (Cons s rest)
  have k: "fst ` set (AList.update (su_ServiceID s) s updateMap) = set (ids @ [su_ServiceID s])"
    using Cons.prems(2) by (simp add: dom_update)
  show ?case
    using Cons.prems Cons.IH [OF _ k] Cons.IH [OF _ Cons.prems(2)]
    by (simp split: if_splits)
qed

lemma selectLoop_ids:
  "selectLoop only locked excluded defined (results, updateMap, ids) = (results1, updateMap1, ids1) \<Longrightarrow>
   set ids1 = set ids \<union> {sid \<in> su_ServiceID ` set defined.
                 (only = None \<or> sid \<in> the only) \<and> sid \<notin> excluded \<and> sid \<notin> locked}"
proof (induction defined arbitrary: results updateMap ids)
  case Nil
  then show ?case by simp
next
  case (Cons s rest)
  show ?case
  proof (cases "(only = None \<or> su_ServiceID s \<in> the only) \<and> su_ServiceID s \<notin> excluded \<and> su_ServiceID s \<notin> locked")
    case True
    then have "selectLoop only locked excluded rest
             (results(su_ServiceID s \<mapsto> pendingResult),
              AList.update (su_ServiceID s) s updateMap,
              ids @ [su_ServiceID s]) = (results1, updateMap1, ids1)"
      using Cons.prems by (simp split: if_splits)
    from Cons.IH [OF this] True show ?thesis by auto
  next
    case False
    then obtain r where "selectLoop only locked excluded rest (r, updateMap, ids) = (results1, updateMap1, ids1)"
      using Cons.prems by (auto split: if_splits)
    from Cons.IH [OF this] False show ?thesis by auto
  qed
qed

lemma selectLoop_unselected:
  "\<not> (only = None \<or> su_ServiceID s \<in> the only) \<Longrightarrow>
   selectLoop only locked excluded (s # rest) (results, updateMap, ids) =
   selectLoop only locked excluded rest (results, updateMap, ids)"
  by (simp only: selectLoop.simps if_False)

lemma selectLoop_excluded:
  "only = None \<or> su_ServiceID s \<in> the only \<Longrightarrow> su_ServiceID s \<in> excluded \<Longrightarrow>
   selectLoop only locked excluded (s # rest) (results, updateMap, ids) =
   selectLoop only locked excluded rest
     (results(su_ServiceID s \<mapsto> skippedResult ''excluded''), updateMap, ids)"
  by (simp only: selectLoop.simps if_True)

lemma selectLoop_locked:
  "only = None \<or> su_ServiceID s \<in> the only \<Longrightarrow> su_ServiceID s \<notin> excluded \<Longrightarrow>
   su_ServiceID s \<in> locked \<Longrightarrow>
   selectLoop only locked excluded (s # rest) (results, updateMap, ids) =
   selectLoop only locked excluded rest
     (results(su_ServiceID s \<mapsto> skippedResult ''locked''), updateMap, ids)"
  by (simp only: selectLoop.simps if_True if_False)

lemma selectLoop_pending:
  "only = None \<or> su_ServiceID s \<in> the only \<Longrightarrow> su_ServiceID s \<notin> excluded \<Longrightarrow>
   su_ServiceID s \<notin> locked \<Longrightarrow>
   selectLoop only locked excluded (s # rest) (results, updateMap, ids) =
   selectLoop only locked excluded rest
     (results(su_ServiceID s \<mapsto> pendingResult),
      AList.update (su_ServiceID s) s updateMap, ids @ [su_ServiceID s])"
  by (simp only: selectLoop.simps if_True if_False)

declare selectLoop.simps(2) [simp del]

lemma selectLoop_inv:
  "selectLoop only locked excluded defined (results, updateMap, ids) = (results1, updateMap1, ids1) \<Longrightarrow>
   (\<And>k u. map_of updateMap k = Some u \<Longrightarrow>
      su_ServiceID u = k \<and> k \<notin> excluded \<and> k \<notin> locked \<and> results k = Some pendingResult) \<Longrightarrow>
   map_of updateMap1 k = Some u \<Longrightarrow>
   su_ServiceID u = k \<and> k \<notin> excluded \<and> k \<notin> locked \<and> results1 k = Some pendingResult"
proof (induction defined arbitrary: results updateMap ids)
  case Nil
  then show ?case by simp
next
  case (Cons s rest)
  let ?k = "su_ServiceID s"
  show ?case
  proof (cases "only = None \<or> ?k \<in> the only")
    case False
    then have "selectLoop only locked excluded rest (results, updateMap, ids) = (results1, updateMap1, ids1)"
      using Cons.prems(1) by (simp add: selectLoop_unselected)
    from Cons.IH [OF this Cons.prems(2) Cons.prems(3)] show ?thesis by simp
  next
    case sel: True
    show ?thesis
    proof (cases "?k \<in> excluded")
      case True
      then have run: "selectLoop only locked excluded rest
          (results(?k \<mapsto> skippedResult ''excluded''), updateMap, ids) = (results1, updateMap1, ids1)"
        using Cons.prems(1) sel by (simp add: selectLoop_excluded)
      have "\<And>k u. map_of updateMap k = Some u \<Longrightarrow>
          su_ServiceID u = k \<and> k \<notin> excluded \<and> k \<notin> locked \<and>
          (results(?k \<mapsto> skippedResult ''excluded'')) k = Some pendingResult"
        proof -
          fix k u assume m: "map_of updateMap k = Some u"
          note i = Cons.prems(2) [OF m]
          from i True have "k \<noteq> ?k" by blast
          with i show "su_ServiceID u = k \<and> k \<notin> excluded \<and> k \<notin> locked \<and>
            (results(?k \<mapsto> skippedResult ''excluded'')) k = Some pendingResult" by simp
        qed
      from Cons.IH [OF run this Cons.prems(3)] show ?thesis by simp
    next
      case nex: False
      show ?thesis
      proof (cases "?k \<in> locked")
        case True
        then have run: "selectLoop only locked excluded rest
            (results(?k \<mapsto> skippedResult ''locked''), updateMap, ids) = (results1, updateMap1, ids1)"
          using Cons.prems(1) sel nex by (simp add: selectLoop_locked)
        have "\<And>k u. map_of updateMap k = Some u \<Longrightarrow>
            su_ServiceID u = k \<and> k \<notin> excluded \<and> k \<notin> locked \<and>
            (results(?k \<mapsto> skippedResult ''locked'')) k = Some pendingResult"
          proof -
            fix k u assume m: "map_of updateMap k = Some u"
            note i = Cons.prems(2) [OF m]
            from i True have "k \<noteq> ?k" by blast
            with i show "su_ServiceID u = k \<and> k \<notin> excluded \<and> k \<notin> locked \<and>
              (results(?k \<mapsto> skippedResult ''locked'')) k = Some pendingResult" by simp
          qed
        from Cons.IH [OF run this Cons.prems(3)] show ?thesis by simp
      next
        case False
        then have run: "selectLoop only locked excluded rest
            (results(?k \<mapsto> pendingResult), AList.update ?k s updateMap, ids @ [?k]) =
            (results1, updateMap1, ids1)"
          using Cons.prems(1) sel nex by (simp add: selectLoop_pending)
        have "\<And>k u. map_of (AList.update ?k s updateMap) k = Some u \<Longrightarrow>
            su_ServiceID u = k \<and> k \<notin> excluded \<and> k \<notin> locked \<and>
            (results(?k \<mapsto> pendingResult)) k = Some pendingResult"
        proof -
          fix k u assume m: "map_of (AList.update ?k s updateMap) k = Some u"
          show "su_ServiceID u = k \<and> k \<notin> excluded \<and> k \<notin> locked \<and>
            (results(?k \<mapsto> pendingResult)) k = Some pendingResult"
          proof (cases "k = ?k")
            case True
            then show ?thesis using m False nex by (simp add: update_conv')
          next
            case ne: False
            then have "map_of updateMap k = Some u" using m by (simp add: update_conv')
            from Cons.prems(2) [OF this] ne show ?thesis by simp
          qed
        qed
        from Cons.IH [OF run this Cons.prems(3)] show ?thesis by simp
      qed
    qed
  qed
qed

lemma keys_delete: "fst ` set (AList.delete k al) = fst ` set al - {k}"
proof -
  have "dom (map_of (AList.delete k al)) = dom (map_of al) - {k}"
    by (simp add: delete_conv')
  then show ?thesis by (simp add: dom_map_of_conv_image_fst)
qed

lemma correlate_keys:
  "correlate services updateMap updates = Inr (updates', leftover) \<Longrightarrow>
   fst ` set leftover = fst ` set updateMap - svc_ID ` set services"
proof (induction services arbitrary: updateMap updates)
  case Nil
  then show ?case by simp
next
  case (Cons service rest)
  from Cons.prems obtain update where
    "correlate rest (AList.delete (svc_ID service) updateMap)
       (updates @ [update\<lparr>su_Service := Some service\<rparr>]) = Inr (updates', leftover)"
    by (auto split: option.splits)
  from Cons.IH [OF this] show ?case by (auto simp: keys_delete)
qed

lemma correlate_leftover_lookup:
  "correlate services updateMap updates = Inr (updates', leftover) \<Longrightarrow>
   map_of leftover k = Some u \<Longrightarrow> map_of updateMap k = Some u"
proof (induction services arbitrary: updateMap updates)
  case Nil
  then show ?case by simp
next
  case (Cons service rest)
  from Cons.prems(1) obtain update where
    "correlate rest (AList.delete (svc_ID service) updateMap)
       (updates @ [update\<lparr>su_Service := Some service\<rparr>]) = Inr (updates', leftover)"
    by (auto split: option.splits)
  from Cons.IH [OF this Cons.prems(2)] show ?case
    by (simp add: delete_conv' split: if_splits)
qed

lemma correlate_updates:
  "correlate services updateMap updates = Inr (updates', leftover) \<Longrightarrow>
   u \<in> set updates' \<Longrightarrow>
   u \<in> set updates \<or>
   (\<exists>u0 service. service \<in> set services \<and> map_of updateMap (svc_ID service) = Some u0 \<and>
        u = u0\<lparr>su_Service := Some service\<rparr>)"
proof (induction services arbitrary: updateMap updates)
  case Nil
  then show ?case by simp
next
  case (Cons service rest)
  from Cons.prems(1) obtain update where
    look: "map_of updateMap (svc_ID service) = Some update" and
    run: "correlate rest (AList.delete (svc_ID service) updateMap)
       (updates @ [update\<lparr>su_Service := Some service\<rparr>]) = Inr (updates', leftover)"
    by (auto split: option.splits)
  from Cons.IH [OF run Cons.prems(2)] consider
    "u \<in> set updates" | "u = update\<lparr>su_Service := Some service\<rparr>" |
    "\<exists>u0 sv. sv \<in> set rest \<and> map_of (AList.delete (svc_ID service) updateMap) (svc_ID sv) = Some u0 \<and>
        u = u0\<lparr>su_Service := Some sv\<rparr>"
    by auto
  then show ?case
  proof cases
    case 1
    then show ?thesis by simp
  next
    case 2
    then show ?thesis using look by auto
  next
    case 3
    then obtain u0 sv where h: "sv \<in> set rest"
      "map_of (AList.delete (svc_ID service) updateMap) (svc_ID sv) = Some u0"
      "u = u0\<lparr>su_Service := Some sv\<rparr>" by blast
    from h(2) have "map_of updateMap (svc_ID sv) = Some u0"
      by (simp add: delete_conv' split: if_splits)
    then show ?thesis using h by auto
  qed
qed

lemma markLeftover_in:
  "k \<in> fst ` set leftover \<Longrightarrow>
   markLeftover requested leftover results k = Some (notRunningResult requested)"
proof (induction leftover arbitrary: results)
  case Nil
  then show ?case by simp
next
  case (Cons a rest)
  obtain sid u where a: "a = (sid, u)" by (cases a)
  have out: "\<And>r. k \<notin> fst ` set rest \<Longrightarrow> markLeftover requested rest r k = r k"
  proof -
    fix r show "k \<notin> fst ` set rest \<Longrightarrow> markLeftover requested rest r k = r k"
      by (induction rest arbitrary: r) auto
  qed
  show ?case
  proof (cases "k \<in> fst ` set rest")
    case True
    then show ?thesis using Cons.IH a by simp
  next
    case False
    then show ?thesis using Cons.prems a out by auto
  qed
qed

lemma markLeftover_out:
  "k \<notin> fst ` set leftover \<Longrightarrow> markLeftover requested leftover results k = results k"
  by (induction leftover arbitrary: results) auto

lemma markLeftover_dom:
  "dom (markLeftover requested leftover results) = dom results \<union> fst ` set leftover"
proof (induction leftover arbitrary: results)
  case Nil
  then show ?case by simp
next
  case (Cons a rest)
  obtain sid u where a: "a = (sid, u)" by (cases a)
  show ?case unfolding a by (simp add: Cons.IH) auto
qed


lemma selectLoop_results:
  "fst (selectLoop only locked excluded defined (results, updateMap, ids)) sid =
     (if sid \<in> su_ServiceID ` set defined \<and> (only = None \<or> sid \<in> the only) then
        Some (if sid \<in> excluded then skippedResult ''excluded''
              else if sid \<in> locked then skippedResult ''locked''
              else pendingResult)
      else results sid)"
proof (induction defined arbitrary: results updateMap ids)
  case Nil
  then show ?case by simp
next
  case (Cons s rest)
  let ?k = "su_ServiceID s"
  show ?case
  proof (cases "only = None \<or> ?k \<in> the only")
    case False
    then show ?thesis by (auto simp: selectLoop_unselected Cons.IH)
  next
    case sel: True
    show ?thesis
    proof (cases "?k \<in> excluded")
      case True
      then show ?thesis using sel by (auto simp: selectLoop_excluded Cons.IH)
    next
      case nex: False
      show ?thesis
      proof (cases "?k \<in> locked")
        case True
        then show ?thesis using sel nex by (auto simp: selectLoop_locked Cons.IH)
      next
        case False
        then show ?thesis using sel nex by (auto simp: selectLoop_pending Cons.IH)
      qed
    qed
  qed
qed

lemma selectLoop_snd:
  "snd (selectLoop only locked excluded defined (results, updateMap, ids)) =
   snd (selectLoop only locked excluded defined (results', updateMap, ids))"
proof (induction defined arbitrary: results results' updateMap ids)
  case Nil
  then show ?case by simp
next
  case (Cons s rest)
  let ?k = "su_ServiceID s"
  show ?case
  proof (cases "only = None \<or> ?k \<in> the only")
    case False
    show ?thesis unfolding selectLoop_unselected [OF False] by (rule Cons.IH)
  next
    case sel: True
    show ?thesis
    proof (cases "?k \<in> excluded")
      case True
      show ?thesis unfolding selectLoop_excluded [OF sel True] by (rule Cons.IH)
    next
      case nex: False
      show ?thesis
      proof (cases "?k \<in> locked")
        case True
        show ?thesis unfolding selectLoop_locked [OF sel nex True] by (rule Cons.IH)
      next
        case False
        show ?thesis unfolding selectLoop_pending [OF sel nex False] by (rule Cons.IH)
      qed
    qed
  qed
qed

lemma candidateIDs_set:
  "set (candidateIDs included locked excluded defined) =
     {sid \<in> su_ServiceID ` set defined.
        (included = None \<or> sid \<in> set (the included)) \<and> sid \<notin> excluded \<and> sid \<notin> locked}"
proof -
  obtain r um ids where run:
    "selectLoop (map_option set included) locked excluded defined (Map.empty, [], []) = (r, um, ids)"
    by (metis prod_cases3)
  have "(map_option set included = None \<or> sid \<in> the (map_option set included)) \<longleftrightarrow>
        (included = None \<or> sid \<in> set (the included))" for sid
    by (cases included) auto
  with selectLoop_ids [OF run] show ?thesis
    by (simp add: candidateIDs_def run)
qed

lemma SelectServices_unfold:
  assumes "FindDefinedServices found readFile = Inr defined"
    and "selectLoop (map_option set included) locked excluded defined (results, [], []) =
           (results1, updateMap, ids)"
  shows "ids = candidateIDs included locked excluded defined"
    and "SelectServices found readFile someServices included locked excluded results =
         (case someServices ids of
            Inl e \<Rightarrow> (Inl e, results1)
          | Inr services \<Rightarrow>
              (case correlate services updateMap [] of
                 Inl e \<Rightarrow> (Inl e, results1)
               | Inr (updates, leftover) \<Rightarrow>
                   (Inr updates, markLeftover (included \<noteq> None) leftover results1)))"
proof -
  have "snd (selectLoop (map_option set included) locked excluded defined (results, [], [])) =
        snd (selectLoop (map_option set included) locked excluded defined (Map.empty, [], []))"
    by (rule selectLoop_snd)
  then have "snd (snd (selectLoop (map_option set included) locked excluded defined (results, [], []))) =
        snd (snd (selectLoop (map_option set included) locked excluded defined (Map.empty, [], [])))"
    by (rule arg_cong)
  then show "ids = candidateIDs included locked excluded defined"
    unfolding candidateIDs_def assms(2) by simp
  show "SelectServices found readFile someServices included locked excluded results =
         (case someServices ids of
            Inl e \<Rightarrow> (Inl e, results1)
          | Inr services \<Rightarrow>
              (case correlate services updateMap [] of
                 Inl e \<Rightarrow> (Inl e, results1)
               | Inr (updates, leftover) \<Rightarrow>
                   (Inr updates, markLeftover (included \<noteq> None) leftover results1)))"
    by (simp add: SelectServices_def assms)
qed

text \<open>
  C4: in SelectServices, a candidate (a service marked pending by the first loop, so one of
  the IDs the cluster is asked for) that is not among the services the cluster query
  returned ends with status skipped when an include list was given (\<open>included \<noteq> None\<close>)
  and ignored otherwise, in both cases with the error "not in running system".
\<close>

theorem SelectServices_not_running:
  assumes find: "FindDefinedServices found readFile = Inr defined"
    and query: "someServices (candidateIDs included locked excluded defined) = Inr services"
    and ret: "fst (SelectServices found readFile someServices included locked excluded results) =
                Inr updates"
    and cand: "sid \<in> set (candidateIDs included locked excluded defined)"
    and absent: "sid \<notin> svc_ID ` set services"
  shows "snd (SelectServices found readFile someServices included locked excluded results) sid =
           Some \<lparr>sr_Status = (if included \<noteq> None then ReleaseStatusSkipped
                              else ReleaseStatusIgnored),
                 sr_Error = ''not in running system'',
                 sr_PerContainer = []\<rparr>"
proof -
  obtain results1 updateMap ids where run:
    "selectLoop (map_option set included) locked excluded defined (results, [], []) =
       (results1, updateMap, ids)"
    by (metis prod_cases3)
  note u = SelectServices_unfold [OF find run]
  have ids: "ids = candidateIDs included locked excluded defined" by (rule u(1))
  have keys: "fst ` set updateMap = set ids"
    using selectLoop_keys [OF run] by simp
  from ret obtain leftover where
    corr: "correlate services updateMap [] = Inr (updates, leftover)" and
    res: "snd (SelectServices found readFile someServices included locked excluded results) =
            markLeftover (included \<noteq> None) leftover results1"
    unfolding u(2) [of someServices] using query ids
    by (auto split: sum.splits)
  have "sid \<in> fst ` set leftover"
    using correlate_keys [OF corr] keys ids cand absent by simp
  then show ?thesis
    unfolding res by (simp add: markLeftover_in notRunningResult_def)
qed


lemma exService_ID [simp]: "svc_ID (exService sid) = sid"
  by (simp add: exService_def)

lemma exFind: "FindDefinedServices exFound exReadFile = Inr exDefined"
  by (simp add: FindDefinedServices_def exFound_def exReadFile_def exDefined_def)

lemma exCand: "candidateIDs None {} {} exDefined = [(''a'', ''x''), (''a'', ''y'')]"
  by (simp add: candidateIDs_def exDefined_def selectLoop.simps)

lemma exRet: "fst (SelectServices exFound exReadFile exRunning None {} {} Map.empty) =
   Inr [\<lparr>su_ServiceID = (''a'', ''x''), su_ManifestPath = ''a/x.yaml'',
       su_ManifestBytes = ''manifest a/x.yaml'', su_Service = Some (exService (''a'', ''x''))\<rparr>]"
  by (simp add: SelectServices_def exFind exDefined_def selectLoop.simps exRunning_def)

lemma exCandOnly:
  "candidateIDs (Some [(''a'', ''y'')]) {} {} exDefined = [(''a'', ''y'')]"
  by (simp add: candidateIDs_def exDefined_def selectLoop.simps)

lemma exRetOnly:
  "fst (SelectServices exFound exReadFile exRunning (Some [(''a'', ''y'')]) {} {} Map.empty) = Inr []"
  by (simp add: SelectServices_def exFind exDefined_def selectLoop.simps exRunning_def)

theorem SelectServices_not_running_witness:
  "snd (SelectServices exFound exReadFile exRunning None {} {} Map.empty) (''a'', ''y'') =
     Some \<lparr>sr_Status = ReleaseStatusIgnored, sr_Error = ''not in running system'',
           sr_PerContainer = []\<rparr> \<and>
   snd (SelectServices exFound exReadFile exRunning (Some [(''a'', ''y'')]) {} {} Map.empty)
       (''a'', ''y'') =
     Some \<lparr>sr_Status = ReleaseStatusSkipped, sr_Error = ''not in running system'',
           sr_PerContainer = []\<rparr>"
proof
  have query: "exRunning (candidateIDs None {} {} exDefined) = Inr [exService (''a'', ''x'')]"
    by (simp add: exCand exRunning_def)
  have cand: "(''a'', ''y'') \<in> set (candidateIDs None {} {} exDefined)"
    by (simp add: exCand)
  have absent: "(''a'', ''y'') \<notin> svc_ID ` set [exService (''a'', ''x'')]"
    by simp
  show "snd (SelectServices exFound exReadFile exRunning None {} {} Map.empty) (''a'', ''y'') =
     Some \<lparr>sr_Status = ReleaseStatusIgnored, sr_Error = ''not in running system'',
           sr_PerContainer = []\<rparr>"
    using SelectServices_not_running [OF exFind query exRet cand absent] by simp
next
  have query: "exRunning (candidateIDs (Some [(''a'', ''y'')]) {} {} exDefined) = Inr []"
    by (simp add: exCandOnly exRunning_def)
  have cand: "(''a'', ''y'') \<in> set (candidateIDs (Some [(''a'', ''y'')]) {} {} exDefined)"
    by (simp add: exCandOnly)
  have absent: "(''a'', ''y'') \<notin> svc_ID ` set []" by simp
  show "snd (SelectServices exFound exReadFile exRunning (Some [(''a'', ''y'')]) {} {} Map.empty)
       (''a'', ''y'') =
     Some \<lparr>sr_Status = ReleaseStatusSkipped, sr_Error = ''not in running system'',
           sr_PerContainer = []\<rparr>"
    using SelectServices_not_running [OF exFind query exRetOnly cand absent] by simp
qed

lemma SelectServices_cases:
  assumes find: "FindDefinedServices found readFile = Inr defined"
    and run: "selectLoop (map_option set included) locked excluded defined (results, [], []) =
           (results1, updateMap, ids)"
  obtains
    (failed) "snd (SelectServices found readFile someServices included locked excluded results) = results1"
      "\<forall>updates. fst (SelectServices found readFile someServices included locked excluded results) \<noteq> Inr updates"
  | (returned) services updates leftover where
      "someServices ids = Inr services"
      "correlate services updateMap [] = Inr (updates, leftover)"
      "SelectServices found readFile someServices included locked excluded results =
         (Inr updates, markLeftover (included \<noteq> None) leftover results1)"
proof (cases "someServices ids")
  case (Inl e)
  then show ?thesis using failed SelectServices_unfold(2) [OF find run, of someServices] by simp
next
  case (Inr services)
  show ?thesis
  proof (cases "correlate services updateMap []")
    case (Inl e)
    then show ?thesis using failed Inr SelectServices_unfold(2) [OF find run, of someServices] by simp
  next
    case r: (Inr p)
    obtain updates leftover where p: "p = (updates, leftover)" by (cases p)
    show ?thesis
      using returned [of services updates leftover] Inr r p
        SelectServices_unfold(2) [OF find run, of someServices] by simp
  qed
qed

lemma SelectServices_outside:
  assumes find: "FindDefinedServices found readFile = Inr defined"
    and out: "sid \<notin> set (candidateIDs included locked excluded defined)"
  shows "snd (SelectServices found readFile someServices included locked excluded results) sid =
         fst (selectLoop (map_option set included) locked excluded defined (results, [], [])) sid"
proof -
  obtain results1 updateMap ids where run:
    "selectLoop (map_option set included) locked excluded defined (results, [], []) =
       (results1, updateMap, ids)"
    by (metis prod_cases3)
  have ids: "ids = candidateIDs included locked excluded defined"
    by (rule SelectServices_unfold(1) [OF find run])
  have keys: "fst ` set updateMap = set ids"
    using selectLoop_keys [OF run] by simp
  show ?thesis
  proof (rule SelectServices_cases [OF find run, of someServices])
    assume "snd (SelectServices found readFile someServices included locked excluded results) = results1"
    then show ?thesis by (simp add: run)
  next
    fix services updates leftover
    assume corr: "correlate services updateMap [] = Inr (updates, leftover)"
      and res: "SelectServices found readFile someServices included locked excluded results =
         (Inr updates, markLeftover (included \<noteq> None) leftover results1)"
    have "sid \<notin> fst ` set leftover"
      using correlate_keys [OF corr] keys ids out by simp
    then show ?thesis by (simp add: res run markLeftover_out)
  qed
qed

lemma SelectServices_dom:
  assumes find: "FindDefinedServices found readFile = Inr defined"
  shows "dom (snd (SelectServices found readFile someServices included locked excluded results)) =
         dom results \<union> {sid \<in> su_ServiceID ` set defined. included = None \<or> sid \<in> set (the included)}"
proof -
  obtain results1 updateMap ids where run:
    "selectLoop (map_option set included) locked excluded defined (results, [], []) =
       (results1, updateMap, ids)"
    by (metis prod_cases3)
  have ids: "ids = candidateIDs included locked excluded defined"
    by (rule SelectServices_unfold(1) [OF find run])
  have keys: "fst ` set updateMap = set ids"
    using selectLoop_keys [OF run] by simp
  have sel: "(map_option set included = None \<or> sid \<in> the (map_option set included)) \<longleftrightarrow>
        (included = None \<or> sid \<in> set (the included))" for sid
    by (cases included) auto
  have d1: "dom results1 =
      dom results \<union> {sid \<in> su_ServiceID ` set defined. included = None \<or> sid \<in> set (the included)}"
  proof -
    have "dom results1 = dom results \<union> {sid \<in> su_ServiceID ` set defined.
        map_option set included = None \<or> sid \<in> the (map_option set included)}"
      using selectLoop_dom [of "map_option set included" locked excluded defined results "[]" "[]"]
      unfolding run by simp
    then show ?thesis unfolding sel .
  qed
  have sub: "set ids \<subseteq> dom results1"
    unfolding d1 ids candidateIDs_set by auto
  show ?thesis
  proof (rule SelectServices_cases [OF find run, of someServices])
    assume "snd (SelectServices found readFile someServices included locked excluded results) = results1"
    then show ?thesis by (simp add: d1)
  next
    fix services updates leftover
    assume corr: "correlate services updateMap [] = Inr (updates, leftover)"
      and res: "SelectServices found readFile someServices included locked excluded results =
         (Inr updates, markLeftover (included \<noteq> None) leftover results1)"
    have "fst ` set leftover \<subseteq> dom results1"
      using correlate_keys [OF corr] keys sub by auto
    then have "dom (markLeftover (included \<noteq> None) leftover results1) = dom results1"
      by (auto simp: markLeftover_dom)
    then show ?thesis by (simp add: res d1)
  qed
qed

lemma SelectServices_updates:
  assumes find: "FindDefinedServices found readFile = Inr defined"
    and ret: "fst (SelectServices found readFile someServices included locked excluded results) = Inr updates"
    and u: "u \<in> set updates"
  shows "su_ServiceID u \<notin> excluded \<and> su_ServiceID u \<notin> locked"
proof -
  obtain results1 updateMap ids where run:
    "selectLoop (map_option set included) locked excluded defined (results, [], []) =
       (results1, updateMap, ids)"
    by (metis prod_cases3)
  show ?thesis
  proof (rule SelectServices_cases [OF find run, of someServices])
    assume "\<forall>updates. fst (SelectServices found readFile someServices included locked excluded results) \<noteq> Inr updates"
    with ret show ?thesis by blast
  next
    fix services updates' leftover
    assume corr: "correlate services updateMap [] = Inr (updates', leftover)"
      and res: "SelectServices found readFile someServices included locked excluded results =
         (Inr updates', markLeftover (included \<noteq> None) leftover results1)"
    from res ret have "updates' = updates" by simp
    with correlate_updates [OF corr, of u] u obtain u0 service where
      look: "map_of updateMap (svc_ID service) = Some u0" and eq: "u = u0\<lparr>su_Service := Some service\<rparr>"
      by auto
    have "su_ServiceID u0 = svc_ID service \<and> svc_ID service \<notin> excluded \<and> svc_ID service \<notin> locked \<and>
          results1 (svc_ID service) = Some pendingResult"
      by (rule selectLoop_inv [OF run _ look]) simp
    then show ?thesis using eq by simp
  qed
qed

text \<open>
  C5, as the code has it: once the defined services are found, the keys of the results are
  those the caller passed in together with every defined service that is selected (all of
  them without an include list, else those on it). Selected services in the excluded or
  locked set are keys too, recorded as skipped with the error "excluded" or "locked"; it is
  the list of updates SelectServices returns that is disjoint from both sets.
\<close>

theorem SelectServices_result_keys:
  assumes find: "FindDefinedServices found readFile = Inr defined"
  shows "dom (snd (SelectServices found readFile someServices included locked excluded results)) =
           dom results \<union>
           {sid \<in> su_ServiceID ` set defined. included = None \<or> sid \<in> set (the included)} \<and>
         (\<forall>sid \<in> su_ServiceID ` set defined.
            (included = None \<or> sid \<in> set (the included)) \<longrightarrow>
            (sid \<in> excluded \<longrightarrow>
               snd (SelectServices found readFile someServices included locked excluded results) sid =
                 Some \<lparr>sr_Status = ReleaseStatusSkipped, sr_Error = ''excluded'', sr_PerContainer = []\<rparr>) \<and>
            (sid \<notin> excluded \<longrightarrow> sid \<in> locked \<longrightarrow>
               snd (SelectServices found readFile someServices included locked excluded results) sid =
                 Some \<lparr>sr_Status = ReleaseStatusSkipped, sr_Error = ''locked'', sr_PerContainer = []\<rparr>)) \<and>
         (\<forall>updates.
            fst (SelectServices found readFile someServices included locked excluded results) = Inr updates \<longrightarrow>
            su_ServiceID ` set updates \<inter> (excluded \<union> locked) = {})"
proof (intro conjI ballI allI impI)
  show "dom (snd (SelectServices found readFile someServices included locked excluded results)) =
           dom results \<union>
           {sid \<in> su_ServiceID ` set defined. included = None \<or> sid \<in> set (the included)}"
    by (rule SelectServices_dom [OF find])
next
  fix sid
  assume d: "sid \<in> su_ServiceID ` set defined"
    and s: "included = None \<or> sid \<in> set (the included)" and e: "sid \<in> excluded"
  have s': "map_option set included = None \<or> sid \<in> the (map_option set included)"
    using s by (cases included) auto
  have "sid \<notin> set (candidateIDs included locked excluded defined)"
    using e by (simp add: candidateIDs_set)
  from SelectServices_outside [OF find this]
  show "snd (SelectServices found readFile someServices included locked excluded results) sid =
          Some \<lparr>sr_Status = ReleaseStatusSkipped, sr_Error = ''excluded'', sr_PerContainer = []\<rparr>"
    using d s' e by (simp add: selectLoop_results skippedResult_def)
next
  fix sid
  assume d: "sid \<in> su_ServiceID ` set defined"
    and s: "included = None \<or> sid \<in> set (the included)"
    and e: "sid \<notin> excluded" and l: "sid \<in> locked"
  have s': "map_option set included = None \<or> sid \<in> the (map_option set included)"
    using s by (cases included) auto
  have "sid \<notin> set (candidateIDs included locked excluded defined)"
    using l by (simp add: candidateIDs_set)
  from SelectServices_outside [OF find this]
  show "snd (SelectServices found readFile someServices included locked excluded results) sid =
          Some \<lparr>sr_Status = ReleaseStatusSkipped, sr_Error = ''locked'', sr_PerContainer = []\<rparr>"
    using d s' e l by (simp add: selectLoop_results skippedResult_def)
next
  fix updates
  assume "fst (SelectServices found readFile someServices included locked excluded results) = Inr updates"
  from SelectServices_updates [OF find this]
  show "su_ServiceID ` set updates \<inter> (excluded \<union> locked) = {}" by auto
qed

theorem SelectServices_result_keys_witness:
  "dom (snd (SelectServices exFound exReadFile exRunning None {} {(''a'', ''x'')} Map.empty)) =
     {(''a'', ''x''), (''a'', ''y'')} \<and>
   snd (SelectServices exFound exReadFile exRunning None {} {(''a'', ''x'')} Map.empty) (''a'', ''x'') =
     Some \<lparr>sr_Status = ReleaseStatusSkipped, sr_Error = ''excluded'', sr_PerContainer = []\<rparr>"
  using SelectServices_result_keys [OF exFind, of exRunning None "{}" "{(''a'', ''x'')}" Map.empty]
  by (auto simp: exDefined_def)

text \<open>
  C5 as stated fails: with \<open>a/x\<close> excluded, \<open>a/x\<close> is a key of the results all the
  same, so the keys are not disjoint from the excluded and locked sets.
\<close>

theorem SelectServices_keys_meet_excluded:
  "dom (snd (SelectServices exFound exReadFile exRunning None {} {(''a'', ''x'')} Map.empty)) \<inter>
     ({(''a'', ''x'')} \<union> {}) = {(''a'', ''x'')}"
  by (simp add: SelectServices_def exFind exDefined_def selectLoop.simps exRunning_def
        skippedResult_def pendingResult_def notRunningResult_def)

subsection \<open>Finding the defined services\<close>

lemma findDefinedLoop_fails:
  "\<exists>(sid, paths) \<in> set services. length paths \<noteq> 1 \<Longrightarrow>
   \<exists>e. findDefinedLoop readFile services acc = Inl e"
proof (induction services arbitrary: acc)
  case Nil
  then show ?case by simp
next
  case (Cons a rest)
  obtain sid paths where a: "a = (sid, paths)" by (cases a)
  show ?case
  proof (cases "length paths = 1")
    case False
    then show ?thesis unfolding a by (auto split: list.splits)
  next
    case True
    then obtain p where p: "paths = [p]" by (cases paths) auto
    from Cons.prems True a have "\<exists>(sid, paths) \<in> set rest. length paths \<noteq> 1" by auto
    from Cons.IH [OF this] show ?thesis unfolding a p by (auto split: sum.splits)
  qed
qed

lemma findDefinedLoop_names:
  "\<exists>(sid, paths) \<in> set services. length paths \<noteq> 1 \<Longrightarrow>
   \<forall>sid p. (sid, [p]) \<in> set services \<longrightarrow> readFile p = Inr (contents p) \<Longrightarrow>
   \<exists>sid paths. (sid, paths) \<in> set services \<and> length paths \<noteq> 1 \<and>
      findDefinedLoop readFile services acc = Inl (multipleFilesError sid paths)"
proof (induction services arbitrary: acc)
  case Nil
  then show ?case by simp
next
  case (Cons a rest)
  obtain sid paths where a: "a = (sid, paths)" by (cases a)
  show ?case
  proof (cases "length paths = 1")
    case False
    then have "findDefinedLoop readFile (a # rest) acc = Inl (multipleFilesError sid paths)"
      unfolding a by (auto split: list.splits)
    with False a show ?thesis
      by (intro exI [of _ sid] exI [of _ paths]) simp
  next
    case True
    then obtain p where p: "paths = [p]" by (cases paths) auto
    from Cons.prems(1) True a have bad: "\<exists>(sid, paths) \<in> set rest. length paths \<noteq> 1" by auto
    have rd: "readFile p = Inr (contents p)" using Cons.prems(2) a p by (metis list.set_intros(1))
    have "\<forall>sid p. (sid, [p]) \<in> set rest \<longrightarrow> readFile p = Inr (contents p)"
      using Cons.prems(2) by simp
    from Cons.IH [OF bad this] obtain sid' paths' where
      "(sid', paths') \<in> set rest" "length paths' \<noteq> 1"
      "findDefinedLoop readFile rest
         (acc @ [\<lparr>su_ServiceID = sid, su_ManifestPath = p,
                   su_ManifestBytes = contents p, su_Service = None\<rparr>]) =
       Inl (multipleFilesError sid' paths')"
      by blast
    then show ?thesis unfolding a p using rd
      by (intro exI [of _ sid'] exI [of _ paths']) simp
  qed
qed

lemma findDefinedLoop_single:
  "\<forall>(sid, paths) \<in> set services. length paths = 1 \<Longrightarrow>
   \<forall>sid p. (sid, [p]) \<in> set services \<longrightarrow> readFile p = Inr (contents p) \<Longrightarrow>
   findDefinedLoop readFile services acc =
     Inr (acc @ map (\<lambda>(sid, paths).
                 \<lparr>su_ServiceID = sid, su_ManifestPath = hd paths,
                  su_ManifestBytes = contents (hd paths), su_Service = None\<rparr>) services)"
proof (induction services arbitrary: acc)
  case Nil
  then show ?case by simp
next
  case (Cons a rest)
  obtain sid paths where a: "a = (sid, paths)" by (cases a)
  from Cons.prems(1) a obtain p where p: "paths = [p]" by (cases paths) auto
  have rd: "readFile p = Inr (contents p)" using Cons.prems(2) a p by (metis list.set_intros(1))
  have 1: "\<forall>(sid, paths) \<in> set rest. length paths = 1" using Cons.prems(1) by simp
  have 2: "\<forall>sid p. (sid, [p]) \<in> set rest \<longrightarrow> readFile p = Inr (contents p)"
    using Cons.prems(2) by simp
  show ?case unfolding a p by (simp add: rd Cons.IH [OF 1 2])
qed

text \<open>
  C6, as the code has it: given the map the cluster adapter found, FindDefinedServices
  fails whenever some ServiceID does not have exactly one path. When every file it reads
  can be read, the error is the "multiple resource files" error naming such a service and
  its paths, and when moreover every ServiceID has exactly one path, the result is one
  ServiceUpdate per service with that file's path and bytes. An error of reading a file
  that is met first is returned as it is.
\<close>

theorem FindDefinedServices_one_file_per_service:
  assumes found: "found = Inr services"
  shows "((\<exists>(sid, paths) \<in> set services. length paths \<noteq> 1) \<longrightarrow>
            (\<exists>e. FindDefinedServices found readFile = Inl e)) \<and>
         ((\<forall>(sid, paths) \<in> set services. \<forall>p. paths = [p] \<longrightarrow> readFile p = Inr (contents p)) \<longrightarrow>
            ((\<exists>(sid, paths) \<in> set services. length paths \<noteq> 1) \<longrightarrow>
               (\<exists>sid paths. (sid, paths) \<in> set services \<and> length paths \<noteq> 1 \<and>
                  FindDefinedServices found readFile = Inl (multipleFilesError sid paths))) \<and>
            ((\<forall>(sid, paths) \<in> set services. length paths = 1) \<longrightarrow>
               FindDefinedServices found readFile =
                 Inr (map (\<lambda>(sid, paths).
                        \<lparr>su_ServiceID = sid, su_ManifestPath = hd paths,
                         su_ManifestBytes = contents (hd paths), su_Service = None\<rparr>) services)))"
proof (intro conjI impI)
  assume "\<exists>(sid, paths) \<in> set services. length paths \<noteq> 1"
  from findDefinedLoop_fails [OF this]
  show "\<exists>e. FindDefinedServices found readFile = Inl e"
    by (simp add: FindDefinedServices_def found)
next
  assume rd: "\<forall>(sid, paths) \<in> set services. \<forall>p. paths = [p] \<longrightarrow> readFile p = Inr (contents p)"
    and bad: "\<exists>(sid, paths) \<in> set services. length paths \<noteq> 1"
  have "\<forall>sid p. (sid, [p]) \<in> set services \<longrightarrow> readFile p = Inr (contents p)"
    using rd by auto
  from findDefinedLoop_names [OF bad this]
  show "\<exists>sid paths. (sid, paths) \<in> set services \<and> length paths \<noteq> 1 \<and>
          FindDefinedServices found readFile = Inl (multipleFilesError sid paths)"
    by (simp add: FindDefinedServices_def found)
next
  assume rd: "\<forall>(sid, paths) \<in> set services. \<forall>p. paths = [p] \<longrightarrow> readFile p = Inr (contents p)"
    and one: "\<forall>(sid, paths) \<in> set services. length paths = 1"
  have "\<forall>sid p. (sid, [p]) \<in> set services \<longrightarrow> readFile p = Inr (contents p)"
    using rd by auto
  from findDefinedLoop_single [OF one this, where acc = "[]"]
  show "FindDefinedServices found readFile =
          Inr (map (\<lambda>(sid, paths).
                 \<lparr>su_ServiceID = sid, su_ManifestPath = hd paths,
                  su_ManifestBytes = contents (hd paths), su_Service = None\<rparr>) services)"
    by (simp add: FindDefinedServices_def found)
qed

theorem FindDefinedServices_one_file_per_service_witness:
  "(\<exists>sid paths.
      (sid, paths) \<in> set [((''a'', ''x''), [''a/x.yaml'']), ((''a'', ''y''), [''a/y.yaml'', ''b/y.yaml''])] \<and>
      length paths \<noteq> 1 \<and>
      FindDefinedServices dupFound exReadFile = Inl (multipleFilesError sid paths)) \<and>
   FindDefinedServices exFound exReadFile = Inr exDefined"
proof
  show "\<exists>sid paths.
      (sid, paths) \<in> set [((''a'', ''x''), [''a/x.yaml'']), ((''a'', ''y''), [''a/y.yaml'', ''b/y.yaml''])] \<and>
      length paths \<noteq> 1 \<and>
      FindDefinedServices dupFound exReadFile = Inl (multipleFilesError sid paths)"
    using FindDefinedServices_one_file_per_service
      [OF dupFound_def, of exReadFile exContents]
    by (simp add: exReadFile_def exContents_def)
  show "FindDefinedServices exFound exReadFile = Inr exDefined"
    using FindDefinedServices_one_file_per_service
      [OF exFound_def, of exReadFile exContents]
    by (simp add: exReadFile_def exContents_def exDefined_def)
qed

text \<open>
  C6 as stated fails where a file cannot be read: with two files for \<open>a/y\<close>, the error
  returned is the read error of \<open>a/x\<close>, which is met first and does not name \<open>a/y\<close>;
  and with one file per service, the result is that read error and no list of updates.
\<close>

theorem FindDefinedServices_read_error_first:
  "FindDefinedServices dupFound unreadable = Inl (ErrorNew ''open a/x.yaml: permission denied'') \<and>
   FindDefinedServices exFound unreadable = Inl (ErrorNew ''open a/x.yaml: permission denied'')"
  by (simp add: FindDefinedServices_def dupFound_def exFound_def unreadable_def)

subsection \<open>Writing the updates\<close>

lemma writeUpdates_step:
  "writeUpdates (u # rest) fs =
     (case fs_files fs (su_ManifestPath u) of
        None \<Rightarrow> (Some (ErrorNew (''stat '' @ su_ManifestPath u @ '': no such file or directory'')), fs)
      | Some f \<Rightarrow>
          (case fs_denied fs (su_ManifestPath u) of
             Some e \<Rightarrow> (Some e, fs)
           | None \<Rightarrow>
               writeUpdates rest
                 (fs\<lparr>fs_files := (fs_files fs)(su_ManifestPath u \<mapsto> f\<lparr>f_bytes := su_ManifestBytes u\<rparr>)\<rparr>)))"
  by (simp add: Stat_def WriteFile_def split: option.splits)

declare writeUpdates.simps(2) [simp del]

lemma writeUpdates_mode:
  "map_option f_mode (fs_files (snd (writeUpdates updates fs)) p) = map_option f_mode (fs_files fs p)"
proof (induction updates arbitrary: fs)
  case Nil
  then show ?case by simp
next
  case (Cons u rest)
  show ?case
    by (auto simp: writeUpdates_step Cons.IH split: option.splits)
qed

lemma writeUpdates_frame:
  "p \<notin> su_ManifestPath ` set updates \<Longrightarrow>
   fs_files (snd (writeUpdates updates fs)) p = fs_files fs p"
proof (induction updates arbitrary: fs)
  case Nil
  then show ?case by simp
next
  case (Cons u rest)
  then show ?case
    by (auto simp: writeUpdates_step split: option.splits)
qed

lemma writeUpdates_written:
  "fst (writeUpdates updates fs) = None \<Longrightarrow> u \<in> set updates \<Longrightarrow>
   \<exists>f. fs_files fs (su_ManifestPath u) = Some f \<and>
       fs_files (snd (writeUpdates updates fs)) (su_ManifestPath u) =
         Some (f\<lparr>f_bytes :=
                 su_ManifestBytes (last (filter (\<lambda>v. su_ManifestPath v = su_ManifestPath u) updates))\<rparr>)"
proof (induction updates arbitrary: fs u)
  case Nil
  then show ?case by simp
next
  case (Cons a rest)
  let ?p = "su_ManifestPath u"
  from Cons.prems(1) obtain fa where
    fa: "fs_files fs (su_ManifestPath a) = Some fa" and
    den: "fs_denied fs (su_ManifestPath a) = None"
    by (auto simp: writeUpdates_step split: option.splits)
  let ?fs1 = "fs\<lparr>fs_files := (fs_files fs)(su_ManifestPath a \<mapsto> fa\<lparr>f_bytes := su_ManifestBytes a\<rparr>)\<rparr>"
  have run: "writeUpdates (a # rest) fs = writeUpdates rest ?fs1"
    by (simp add: writeUpdates_step fa den)
  have ok: "fst (writeUpdates rest ?fs1) = None" using Cons.prems(1) run by simp
  show ?case
  proof (cases "\<exists>v \<in> set rest. su_ManifestPath v = ?p")
    case True
    then obtain v where v: "v \<in> set rest" "su_ManifestPath v = ?p" by blast
    from Cons.IH [OF ok v(1)] obtain f1 where
      f1: "fs_files ?fs1 ?p = Some f1" and
      out: "fs_files (snd (writeUpdates rest ?fs1)) ?p =
              Some (f1\<lparr>f_bytes := su_ManifestBytes (last (filter (\<lambda>w. su_ManifestPath w = ?p) rest))\<rparr>)"
      by (auto simp: v(2))
    have ne: "filter (\<lambda>w. su_ManifestPath w = ?p) rest \<noteq> []"
      using v by (auto simp: filter_empty_conv)
    have l: "last (filter (\<lambda>w. su_ManifestPath w = ?p) (a # rest)) =
             last (filter (\<lambda>w. su_ManifestPath w = ?p) rest)"
      using ne by simp
    show ?thesis
    proof (cases "su_ManifestPath a = ?p")
      case True
      then have "f1 = fa\<lparr>f_bytes := su_ManifestBytes a\<rparr>" using f1 by simp
      then show ?thesis unfolding run l using out fa True by simp
    next
      case False
      then have "fs_files fs ?p = Some f1" using f1 by simp
      then show ?thesis unfolding run l using out by simp
    qed
  next
    case False
    then have "?p \<notin> su_ManifestPath ` set rest" by auto
    from writeUpdates_frame [OF this]
    have fr: "fs_files (snd (writeUpdates rest ?fs1)) ?p = fs_files ?fs1 ?p" .
    from False Cons.prems(2) have ua: "u = a" by auto
    have "filter (\<lambda>w. su_ManifestPath w = ?p) rest = []"
      using False by (auto simp: filter_empty_conv)
    then have l: "last (filter (\<lambda>w. su_ManifestPath w = ?p) (a # rest)) = a"
      using ua by simp
    show ?thesis unfolding run l fr using fa ua by simp
  qed
qed

text \<open>
  C9: writeUpdates never changes the mode of a file, whether it ends with an error or not;
  it leaves every file other than the manifest paths as it was; and when it succeeds, each
  manifest path holds the bytes of the (last) update written to it, under the mode the
  file had before.
\<close>

theorem writeUpdates_preserves_mode:
  "(\<forall>p. map_option f_mode (fs_files (snd (writeUpdates updates fs)) p) =
         map_option f_mode (fs_files fs p)) \<and>
   (\<forall>p. p \<notin> su_ManifestPath ` set updates \<longrightarrow>
         fs_files (snd (writeUpdates updates fs)) p = fs_files fs p) \<and>
   (fst (writeUpdates updates fs) = None \<longrightarrow>
      (\<forall>u \<in> set updates.
         \<exists>f. fs_files fs (su_ManifestPath u) = Some f \<and>
             fs_files (snd (writeUpdates updates fs)) (su_ManifestPath u) =
               Some \<lparr>f_mode = f_mode f,
                     f_bytes = su_ManifestBytes
                        (last (filter (\<lambda>v. su_ManifestPath v = su_ManifestPath u) updates))\<rparr>))"
proof (intro conjI allI impI ballI)
  fix p show "map_option f_mode (fs_files (snd (writeUpdates updates fs)) p) =
         map_option f_mode (fs_files fs p)" by (rule writeUpdates_mode)
next
  fix p assume "p \<notin> su_ManifestPath ` set updates"
  then show "fs_files (snd (writeUpdates updates fs)) p = fs_files fs p"
    by (rule writeUpdates_frame)
next
  fix u assume "fst (writeUpdates updates fs) = None" "u \<in> set updates"
  from writeUpdates_written [OF this] obtain f where
    "fs_files fs (su_ManifestPath u) = Some f"
    "fs_files (snd (writeUpdates updates fs)) (su_ManifestPath u) =
         Some (f\<lparr>f_bytes :=
                 su_ManifestBytes (last (filter (\<lambda>v. su_ManifestPath v = su_ManifestPath u) updates))\<rparr>)"
    by blast
  then show "\<exists>f. fs_files fs (su_ManifestPath u) = Some f \<and>
             fs_files (snd (writeUpdates updates fs)) (su_ManifestPath u) =
               Some \<lparr>f_mode = f_mode f,
                     f_bytes = su_ManifestBytes
                        (last (filter (\<lambda>v. su_ManifestPath v = su_ManifestPath u) updates))\<rparr>"
    by (cases f) simp
qed

theorem writeUpdates_preserves_mode_witness:
  "fst (writeUpdates [exUpdate] exFS) = None \<and>
   fs_files (snd (writeUpdates [exUpdate] exFS)) ''a/x.yaml'' =
     Some \<lparr>f_mode = 420, f_bytes = ''image: r/i:2''\<rparr> \<and>
   fs_files (snd (writeUpdates [exUpdate] exFS)) ''a/y.yaml'' = None"
proof -
  have ok: "fst (writeUpdates [exUpdate] exFS) = None"
    by (simp add: writeUpdates_step exUpdate_def exFS_def)
  show ?thesis
    using ok writeUpdates_preserves_mode [of "[exUpdate]" exFS]
    by (auto simp: exUpdate_def exFS_def)
qed

subsection \<open>Add-ons\<close>

lemma isAddon_iff:
  "isAddon obj \<longleftrightarrow>
     om_Namespace obj = ''kube-system'' \<and>
     (goLookup (om_Labels obj) ''kubernetes.io/cluster-service'' = ''true'' \<or>
      goLookup (om_Labels obj) ''addonmanager.kubernetes.io/mode'' = ''EnsureExists'' \<or>
      goLookup (om_Labels obj) ''addonmanager.kubernetes.io/mode'' = ''Reconcile'')"
  by (simp add: isAddon_def)

lemma podControllers_no_addon:
  "podControllersInNamespace client ns = Inr controllers \<Longrightarrow> pc \<in> set controllers \<Longrightarrow>
   (\<forall>d. pc_Deployment pc = Some d \<longrightarrow> \<not> isAddon (d_Meta d)) \<and>
   (\<forall>r. pc_ReplicationController pc = Some r \<longrightarrow> \<not> isAddon (r_Meta r))"
  by (auto simp: podControllersInNamespace_def split: sum.splits)

lemma servicesOf_no_addon:
  "svc \<in> set (servicesOf ns controllers items) \<Longrightarrow>
   \<exists>service \<in> set items. \<not> isAddon (s_Meta service) \<and> svc = makeService ns service controllers"
  by (auto simp: servicesOf_def)

lemma allServicesLoop_no_addon:
  "allServicesLoop client nss res = Inr out \<Longrightarrow> svc \<in> set out \<Longrightarrow>
   svc \<in> set res \<or>
   (\<exists>ns items service controllers.
      ns \<in> set nss \<and> cl_Services client ns = Inr items \<and> service \<in> set items \<and>
      \<not> isAddon (s_Meta service) \<and>
      podControllersInNamespace client ns = Inr controllers \<and>
      svc = makeService ns service controllers)"
proof (induction nss arbitrary: res)
  case Nil
  then show ?case by simp
next
  case (Cons ns rest)
  from Cons.prems(1) obtain controllers items where
    c: "podControllersInNamespace client ns = Inr controllers" and
    i: "cl_Services client ns = Inr items" and
    run: "allServicesLoop client rest (res @ servicesOf ns controllers items) = Inr out"
    by (auto split: sum.splits)
  from Cons.IH [OF run Cons.prems(2)] consider
    "svc \<in> set res" | "svc \<in> set (servicesOf ns controllers items)" |
    "\<exists>ns' items service controllers.
      ns' \<in> set rest \<and> cl_Services client ns' = Inr items \<and> service \<in> set items \<and>
      \<not> isAddon (s_Meta service) \<and>
      podControllersInNamespace client ns' = Inr controllers \<and>
      svc = makeService ns' service controllers"
    by auto
  then show ?case
  proof cases
    case 1
    then show ?thesis by simp
  next
    case 2
    from servicesOf_no_addon [OF this] c i show ?thesis by auto
  next
    case 3
    then show ?thesis by auto
  qed
qed

lemma AllServices_no_addon:
  "AllServices client namespace = Inr res \<Longrightarrow> svc \<in> set res \<Longrightarrow>
   \<exists>ns items service controllers.
      cl_Services client ns = Inr items \<and> service \<in> set items \<and>
      \<not> isAddon (s_Meta service) \<and>
      podControllersInNamespace client ns = Inr controllers \<and>
      svc = makeService ns service controllers"
proof -
  assume a: "AllServices client namespace = Inr res" and s: "svc \<in> set res"
  have "\<exists>nss. allServicesLoop client nss [] = Inr res"
  proof (cases "namespace = []")
    case True
    show ?thesis
    proof (cases "cl_Namespaces client")
      case (Inl e)
      then show ?thesis using a True by (simp add: AllServices_def)
    next
      case (Inr items)
      then have "allServicesLoop client (map ns_Name items) [] = Inr res"
        using a True by (simp add: AllServices_def)
      then show ?thesis by blast
    qed
  next
    case False
    then have "allServicesLoop client [namespace] [] = Inr res"
      using a by (simp add: AllServices_def del: allServicesLoop.simps)
    then show ?thesis by blast
  qed
  then obtain nss where "allServicesLoop client nss [] = Inr res" by blast
  from allServicesLoop_no_addon [OF this s] show ?thesis by auto
qed

lemma getServices_no_addon:
  "svc \<in> set (getServices client ns controllers names res) \<Longrightarrow>
   svc \<in> set res \<or>
   (\<exists>name service. name \<in> set names \<and> cl_ServicesGet client ns name = Inr service \<and>
      \<not> isAddon (s_Meta service) \<and> svc = makeService ns service controllers)"
proof (induction names arbitrary: res)
  case Nil
  then show ?case by simp
next
  case (Cons name rest)
  show ?case
  proof (cases "cl_ServicesGet client ns name")
    case (Inl e)
    then show ?thesis using Cons.IH [of res] Cons.prems by auto
  next
    case (Inr service)
    show ?thesis
    proof (cases "isAddon (s_Meta service)")
      case True
      then show ?thesis using Cons.IH [of res] Cons.prems Inr by auto
    next
      case False
      then have "svc \<in> set (getServices client ns controllers rest
                    (res @ [makeService ns service controllers]))"
        using Cons.prems Inr by simp
      from Cons.IH [OF this] show ?thesis using Inr False by auto
    qed
  qed
qed

lemma someServicesLoop_no_addon:
  "someServicesLoop client groups res = Inr out \<Longrightarrow> svc \<in> set out \<Longrightarrow>
   svc \<in> set res \<or>
   (\<exists>ns names name service controllers.
      (ns, names) \<in> set groups \<and> name \<in> set names \<and>
      cl_ServicesGet client ns name = Inr service \<and> \<not> isAddon (s_Meta service) \<and>
      podControllersInNamespace client ns = Inr controllers \<and>
      svc = makeService ns service controllers)"
proof (induction groups arbitrary: res)
  case Nil
  then show ?case by simp
next
  case (Cons g rest)
  obtain ns names where g: "g = (ns, names)" by (cases g)
  from Cons.prems(1) obtain controllers where
    c: "podControllersInNamespace client ns = Inr controllers" and
    run: "someServicesLoop client rest (getServices client ns controllers names res) = Inr out"
    unfolding g by (auto split: sum.splits)
  from Cons.IH [OF run Cons.prems(2)] consider
    "svc \<in> set (getServices client ns controllers names res)" |
    "\<exists>ns' names' name service controllers.
      (ns', names') \<in> set rest \<and> name \<in> set names' \<and>
      cl_ServicesGet client ns' name = Inr service \<and> \<not> isAddon (s_Meta service) \<and>
      podControllersInNamespace client ns' = Inr controllers \<and>
      svc = makeService ns' service controllers"
    by blast
  then show ?case
  proof cases
    case 1
    from getServices_no_addon [OF this] show ?thesis
    proof
      assume "svc \<in> set res" then show ?thesis by simp
    next
      assume "\<exists>name service. name \<in> set names \<and> cl_ServicesGet client ns name = Inr service \<and>
        \<not> isAddon (s_Meta service) \<and> svc = makeService ns service controllers"
      then obtain name service where "name \<in> set names" "cl_ServicesGet client ns name = Inr service"
        "\<not> isAddon (s_Meta service)" "svc = makeService ns service controllers" by blast
      then have "\<exists>ns' names' name service controllers.
        (ns', names') \<in> set (g # rest) \<and> name \<in> set names' \<and>
        cl_ServicesGet client ns' name = Inr service \<and> \<not> isAddon (s_Meta service) \<and>
        podControllersInNamespace client ns' = Inr controllers \<and>
        svc = makeService ns' service controllers"
        using c g by (intro exI [of _ ns] exI [of _ names] exI [of _ name] exI [of _ service]
                           exI [of _ controllers]) simp
      then show ?thesis by blast
    qed
  next
    case 2
    then obtain ns' names' name service controllers' where
      "(ns', names') \<in> set rest" "name \<in> set names'"
      "cl_ServicesGet client ns' name = Inr service" "\<not> isAddon (s_Meta service)"
      "podControllersInNamespace client ns' = Inr controllers'"
      "svc = makeService ns' service controllers'" by blast
    then have "\<exists>ns' names' name service controllers.
        (ns', names') \<in> set (g # rest) \<and> name \<in> set names' \<and>
        cl_ServicesGet client ns' name = Inr service \<and> \<not> isAddon (s_Meta service) \<and>
        podControllersInNamespace client ns' = Inr controllers \<and>
        svc = makeService ns' service controllers"
      by (intro exI [of _ ns'] exI [of _ names'] exI [of _ name] exI [of _ service]
                exI [of _ controllers']) simp
    then show ?thesis by blast
  qed
qed

lemma namespacedServices_inv:
  "distinct (map fst m) \<Longrightarrow>
   (\<forall>ns names name. map_of m ns = Some names \<longrightarrow> name \<in> set names \<longrightarrow> (ns, name) \<in> S) \<Longrightarrow>
   set ids \<subseteq> S \<Longrightarrow>
   distinct (map fst (namespacedServices ids m)) \<and>
   (\<forall>ns names name. map_of (namespacedServices ids m) ns = Some names \<longrightarrow> name \<in> set names \<longrightarrow>
        (ns, name) \<in> S)"
proof (induction ids arbitrary: m)
  case Nil
  then show ?case by simp
next
  case (Cons sid rest)
  obtain ns name where sid: "sid = (ns, name)" by (cases sid)
  let ?old = "case map_of m ns of None \<Rightarrow> [] | Some names \<Rightarrow> names"
  let ?m = "AList.update ns (?old @ [name]) m"
  have d: "distinct (map fst ?m)" using Cons.prems(1) by (simp add: distinct_update)
  have inS: "(ns, name) \<in> S" using Cons.prems(3) sid by simp
  have old: "\<forall>n \<in> set ?old. (ns, n) \<in> S"
  proof (cases "map_of m ns")
    case None
    then show ?thesis by simp
  next
    case (Some names')
    then show ?thesis using Cons.prems(2) by auto
  qed
  have inv: "\<forall>ns' names n. map_of ?m ns' = Some names \<longrightarrow> n \<in> set names \<longrightarrow> (ns', n) \<in> S"
  proof (intro allI impI)
    fix ns' names n
    assume l: "map_of ?m ns' = Some names" and n: "n \<in> set names"
    show "(ns', n) \<in> S"
    proof (cases "ns' = ns")
      case True
      then have "names = ?old @ [name]" using l by (simp add: update_conv')
      then show ?thesis using n old inS True by auto
    next
      case False
      then have "map_of m ns' = Some names" using l by (simp add: update_conv')
      then show ?thesis using Cons.prems(2) n by blast
    qed
  qed
  have r: "set rest \<subseteq> S" using Cons.prems(3) by simp
  from Cons.IH [OF d inv r] show ?case by (simp add: sid Components_def)
qed

lemma namespacedServices_member:
  "(ns, names) \<in> set (namespacedServices ids []) \<Longrightarrow> name \<in> set names \<Longrightarrow> (ns, name) \<in> set ids"
proof -
  assume m: "(ns, names) \<in> set (namespacedServices ids [])" and n: "name \<in> set names"
  have inv: "distinct (map fst (namespacedServices ids [])) \<and>
     (\<forall>ns names name. map_of (namespacedServices ids []) ns = Some names \<longrightarrow> name \<in> set names \<longrightarrow>
        (ns, name) \<in> set ids)"
    by (rule namespacedServices_inv) simp_all
  then have "map_of (namespacedServices ids []) ns = Some names"
    using m by (intro map_of_is_SomeI) simp_all
  with inv n show ?thesis by blast
qed

lemma SomeServices_no_addon:
  "SomeServices client ids = Inr res \<Longrightarrow> svc \<in> set res \<Longrightarrow>
   \<exists>ns name service controllers.
      (ns, name) \<in> set ids \<and> cl_ServicesGet client ns name = Inr service \<and>
      \<not> isAddon (s_Meta service) \<and>
      podControllersInNamespace client ns = Inr controllers \<and>
      svc = makeService ns service controllers"
proof -
  assume a: "SomeServices client ids = Inr res" and s: "svc \<in> set res"
  from someServicesLoop_no_addon [OF a [unfolded SomeServices_def] s]
  obtain ns names name service controllers where
    h: "(ns, names) \<in> set (namespacedServices ids [])" "name \<in> set names"
      "cl_ServicesGet client ns name = Inr service" "\<not> isAddon (s_Meta service)"
      "podControllersInNamespace client ns = Inr controllers"
      "svc = makeService ns service controllers"
    by auto
  from namespacedServices_member [OF h(1) h(2)] h show ?thesis by blast
qed


lemma exportLoop_docs:
  assumes same: "\<And>x. isAddonObject (toObject x) = isAddon (meta x)"
  shows "exportLoop marshal apiVersion kind msg meta toObject xs config = Inr out \<Longrightarrow>
   \<exists>docs. out = config @ concat (map renderDoc docs) \<and> list_all (exportedDoc marshal) docs"
proof (induction xs arbitrary: config)
  case Nil
  then have "out = config @ concat (map renderDoc []) \<and> list_all (exportedDoc marshal) []" by simp
  then show ?case by blast
next
  case (Cons x rest)
  show ?case
  proof (cases "isAddon (meta x)")
    case True
    then show ?thesis using Cons by simp
  next
    case False
    with Cons.prems obtain y where
      m: "marshal (toObject x) = Inr y" and
      run: "exportLoop marshal apiVersion kind msg meta toObject rest
              (config @ yamlHeader apiVersion kind @ y) = Inr out"
      by (auto simp: appendYAML_def split: sum.splits)
    from Cons.IH [OF run] obtain docs where
      d: "out = (config @ yamlHeader apiVersion kind @ y) @ concat (map renderDoc docs)"
         "list_all (exportedDoc marshal) docs" by blast
    have "out = config @ concat (map renderDoc ((apiVersion, kind, toObject x, y) # docs)) \<and>
          list_all (exportedDoc marshal) ((apiVersion, kind, toObject x, y) # docs)"
      using d m False by (simp add: renderDoc_def exportedDoc_def same)
    then show ?thesis by blast
  qed
qed

lemma exportNamespaces_docs:
  "exportNamespaces client marshal nss config = Inr out \<Longrightarrow>
   \<exists>docs. out = config @ concat (map renderDoc docs) \<and> list_all (exportedDoc marshal) docs"
proof (induction nss arbitrary: config)
  case Nil
  then have "out = config @ concat (map renderDoc []) \<and> list_all (exportedDoc marshal) []" by simp
  then show ?case by blast
next
  case (Cons ns rest)
  from Cons.prems obtain y deployments c2 rcs c3 services c4 where
    m: "marshal (NamespaceObject ns) = Inr y" and
    l1: "exportLoop marshal ''extensions/v1beta1'' ''Deployment''
             ''marshalling deployment to YAML'' d_Meta DeploymentObject deployments
             (config @ yamlHeader ''v1'' ''Namespace'' @ y) = Inr c2" and
    l2: "exportLoop marshal ''v1'' ''ReplicationController''
             ''marshalling replication controller to YAML'' r_Meta ReplicationControllerObject
             rcs c2 = Inr c3" and
    l3: "exportLoop marshal ''v1'' ''Service'' ''marshalling service to YAML''
             s_Meta ServiceObject services c3 = Inr c4" and
    run: "exportNamespaces client marshal rest c4 = Inr out"
    by (auto simp: appendYAML_def split: sum.splits)
  from exportLoop_docs [OF _ l1] obtain d1 where
    d1: "c2 = (config @ yamlHeader ''v1'' ''Namespace'' @ y) @ concat (map renderDoc d1)"
        "list_all (exportedDoc marshal) d1" by auto
  from exportLoop_docs [OF _ l2] obtain d2 where
    d2: "c3 = c2 @ concat (map renderDoc d2)" "list_all (exportedDoc marshal) d2" by auto
  from exportLoop_docs [OF _ l3] obtain d3 where
    d3: "c4 = c3 @ concat (map renderDoc d3)" "list_all (exportedDoc marshal) d3" by auto
  from Cons.IH [OF run] obtain d4 where
    d4: "out = c4 @ concat (map renderDoc d4)" "list_all (exportedDoc marshal) d4" by blast
  let ?docs = "(''v1'', ''Namespace'', NamespaceObject ns, y) # d1 @ d2 @ d3 @ d4"
  have "out = config @ concat (map renderDoc ?docs) \<and> list_all (exportedDoc marshal) ?docs"
    using d1 d2 d3 d4 m by (simp add: renderDoc_def exportedDoc_def)
  then show ?case by blast
qed

lemma Export_docs:
  "Export client marshal = Inr out \<Longrightarrow>
   \<exists>docs. out = concat (map renderDoc docs) \<and> list_all (exportedDoc marshal) docs"
proof -
  assume "Export client marshal = Inr out"
  then obtain items where "exportNamespaces client marshal items [] = Inr out"
    by (auto simp: Export_def split: sum.splits)
  from exportNamespaces_docs [OF this] show ?thesis by simp
qed


text \<open>
  C2, as the code has it: an object is an add-on exactly when it is in the namespace
  \<open>kube-system\<close> and bears one of the three labels. Every service AllServices or
  SomeServices returns is made from a service object that is no add-on, with pod
  controllers none of which is an add-on; and the bundle Export returns is the
  concatenation of documents none of which is an add-on deployment, replication controller
  or service. Nothing is said of Sync, which does not look at namespaces or labels.
\<close>

theorem addons_invisible_to_queries:
  "(isAddon obj \<longleftrightarrow>
      om_Namespace obj = ''kube-system'' \<and>
      (goLookup (om_Labels obj) ''kubernetes.io/cluster-service'' = ''true'' \<or>
       goLookup (om_Labels obj) ''addonmanager.kubernetes.io/mode'' = ''EnsureExists'' \<or>
       goLookup (om_Labels obj) ''addonmanager.kubernetes.io/mode'' = ''Reconcile'')) \<and>
   (\<forall>res. AllServices client namespace = Inr res \<longrightarrow>
      (\<forall>svc \<in> set res.
         \<exists>ns items service controllers.
           cl_Services client ns = Inr items \<and> service \<in> set items \<and>
           \<not> isAddon (s_Meta service) \<and>
           podControllersInNamespace client ns = Inr controllers \<and>
           svc = makeService ns service controllers)) \<and>
   (\<forall>res. SomeServices client ids = Inr res \<longrightarrow>
      (\<forall>svc \<in> set res.
         \<exists>ns name service controllers.
           (ns, name) \<in> set ids \<and> cl_ServicesGet client ns name = Inr service \<and>
           \<not> isAddon (s_Meta service) \<and>
           podControllersInNamespace client ns = Inr controllers \<and>
           svc = makeService ns service controllers)) \<and>
   (\<forall>controllers. podControllersInNamespace client namespace = Inr controllers \<longrightarrow>
      (\<forall>pc \<in> set controllers.
         (\<forall>d. pc_Deployment pc = Some d \<longrightarrow> \<not> isAddon (d_Meta d)) \<and>
         (\<forall>r. pc_ReplicationController pc = Some r \<longrightarrow> \<not> isAddon (r_Meta r)))) \<and>
   (\<forall>out. Export client marshal = Inr out \<longrightarrow>
      (\<exists>docs. out = concat (map renderDoc docs) \<and> list_all (exportedDoc marshal) docs))"
proof (intro conjI allI impI ballI)
  show "isAddon obj \<longleftrightarrow>
      om_Namespace obj = ''kube-system'' \<and>
      (goLookup (om_Labels obj) ''kubernetes.io/cluster-service'' = ''true'' \<or>
       goLookup (om_Labels obj) ''addonmanager.kubernetes.io/mode'' = ''EnsureExists'' \<or>
       goLookup (om_Labels obj) ''addonmanager.kubernetes.io/mode'' = ''Reconcile'')"
    by (rule isAddon_iff)
next
  fix res svc assume "AllServices client namespace = Inr res" "svc \<in> set res"
  then show "\<exists>ns items service controllers.
           cl_Services client ns = Inr items \<and> service \<in> set items \<and>
           \<not> isAddon (s_Meta service) \<and>
           podControllersInNamespace client ns = Inr controllers \<and>
           svc = makeService ns service controllers"
    by (rule AllServices_no_addon)
next
  fix res svc assume "SomeServices client ids = Inr res" "svc \<in> set res"
  then show "\<exists>ns name service controllers.
           (ns, name) \<in> set ids \<and> cl_ServicesGet client ns name = Inr service \<and>
           \<not> isAddon (s_Meta service) \<and>
           podControllersInNamespace client ns = Inr controllers \<and>
           svc = makeService ns service controllers"
    by (rule SomeServices_no_addon)
next
  fix controllers pc d
  assume "podControllersInNamespace client namespace = Inr controllers" "pc \<in> set controllers"
    "pc_Deployment pc = Some d"
  then show "\<not> isAddon (d_Meta d)" using podControllers_no_addon by blast
next
  fix controllers pc r
  assume "podControllersInNamespace client namespace = Inr controllers" "pc \<in> set controllers"
    "pc_ReplicationController pc = Some r"
  then show "\<not> isAddon (r_Meta r)" using podControllers_no_addon by blast
next
  fix out assume "Export client marshal = Inr out"
  then show "\<exists>docs. out = concat (map renderDoc docs) \<and> list_all (exportedDoc marshal) docs"
    by (rule Export_docs)
qed

lemma ex_isAddon [simp]: "isAddon (s_Meta kubeDNS)" "\<not> isAddon (s_Meta dashboard)"
  by (simp_all add: isAddon_def kubeDNS_def dashboard_def goLookup_def)

lemma exControllers: "podControllersInNamespace exClient ns = Inr []"
  by (simp add: podControllersInNamespace_def exClient_def)

lemma exAll:
  "AllServices exClient ''kube-system'' = Inr [makeService ''kube-system'' dashboard []]"
  by (simp add: AllServices_def exControllers) (simp add: exClient_def servicesOf_def)

lemma exSome:
  "SomeServices exClient [(''kube-system'', ''kube-dns''), (''kube-system'', ''dashboard'')] =
     Inr [makeService ''kube-system'' dashboard []]"
  by (simp add: SomeServices_def Components_def exControllers) (simp add: exClient_def)

lemma exExport:
  "Export exClient exMarshal =
     Inr (concat (map renderDoc
        [(''v1'', ''Namespace'', NamespaceObject \<lparr>ns_Name = ''kube-system''\<rparr>, ''name: kube-system''),
         (''v1'', ''Service'', ServiceObject dashboard, ''name: dashboard'')]))"
proof -
  have n: "om_Name (s_Meta dashboard) = ''dashboard''" by (simp add: dashboard_def)
  show ?thesis
    by (simp add: Export_def exClient_def appendYAML_def renderDoc_def n)
qed

theorem addons_invisible_to_queries_witness:
  "AllServices exClient ''kube-system'' = Inr [makeService ''kube-system'' dashboard []] \<and>
   SomeServices exClient [(''kube-system'', ''kube-dns''), (''kube-system'', ''dashboard'')] =
     Inr [makeService ''kube-system'' dashboard []] \<and>
   Export exClient exMarshal =
     Inr (concat (map renderDoc
        [(''v1'', ''Namespace'', NamespaceObject \<lparr>ns_Name = ''kube-system''\<rparr>, ''name: kube-system''),
         (''v1'', ''Service'', ServiceObject dashboard, ''name: dashboard'')])) \<and>
   isAddon (s_Meta kubeDNS) \<and>
   (\<exists>ns items service controllers.
      cl_Services exClient ns = Inr items \<and> service \<in> set items \<and>
      \<not> isAddon (s_Meta service) \<and>
      podControllersInNamespace exClient ns = Inr controllers \<and>
      makeService ''kube-system'' dashboard [] = makeService ns service controllers)"
  using addons_invisible_to_queries
    [of "s_Meta kubeDNS" exClient "''kube-system''"
        "[(''kube-system'', ''kube-dns''), (''kube-system'', ''dashboard'')]" exMarshal]
  by (simp add: exAll exSome exExport)

lemma addonManifest_nonempty: "addonManifest \<noteq> []"
  by (simp add: addonManifest_def)

text \<open>
  C2 as stated fails for Sync: a batch whose action applies the manifest of the add-on
  \<open>kube-dns\<close> (namespace \<open>kube-system\<close>, label \<open>kubernetes.io/cluster-service\<close>) is
  handed to the applier like any other.
\<close>

theorem Sync_applies_addon:
  "Sync exUnmarshal recordingApplier addonBatch exCluster =
     (Some None,
      \<lparr>c_applierState =
         [Applied \<lparr>ao_bytes = addonManifest, ao_Version = ''v1'', ao_Kind = ''Service'',
                   ao_Name = ''kube-dns'', ao_Namespace = ''kube-system''\<rparr>],
       c_loopStuck = False\<rparr>)"
  by (simp add: Sync_def addonBatch_def exCluster_def syncAction_def addonManifest_nonempty
        definitionObj_def exUnmarshal_def recordingApplier_def closureSends_def)

subsection \<open>Sync\<close>



lemma syncActions_state:
  "snd (syncActions um ap xs s errs) = snd (syncActions um ap xs s errs')"
  by (induction xs arbitrary: s errs errs') (auto split: prod.splits option.splits)











lemma Sync_unstuck:
  "\<not> c_loopStuck c \<Longrightarrow>
   syncActions um ap (sd_Actions spec) (c_applierState c) [] = (errs, s') \<Longrightarrow>
   Sync um ap spec c =
     (Some (if errs = [] then None else Some errs),
      \<lparr>c_applierState = s', c_loopStuck = (errs \<noteq> [])\<rparr>)"
  by (simp add: Sync_def closureSends_def)


lemma exRun:
  "syncActions exUnmarshal recordingApplier (sd_Actions exBatch) (c_applierState exCluster) [] =
     ([(''default:service/bad'', ErrorNew ''rejected'')],
      [Applied \<lparr>ao_bytes = ''one'', ao_Version = ''v1'', ao_Kind = ''Service'',
                ao_Name = ''one'', ao_Namespace = ''default''\<rparr>,
       Applied \<lparr>ao_bytes = ''bad'', ao_Version = ''v1'', ao_Kind = ''Service'',
                ao_Name = ''bad'', ao_Namespace = ''default''\<rparr>,
       Applied \<lparr>ao_bytes = ''three'', ao_Version = ''v1'', ao_Kind = ''Service'',
                ao_Name = ''three'', ao_Namespace = ''default''\<rparr>])"
  by (simp add: exBatch_def exCluster_def syncAction_def definitionObj_def exUnmarshal_def
        recordingApplier_def addonManifest_def newline_def)


text \<open>
  C3 fails on the code: after a batch with a failing action the closure sends twice, the
  SyncError and then nil. Sync receives the first and returns; the second send has no
  receiver, so the consumer goroutine stays inside the closure and the next Sync never
  returns.
\<close>

theorem Sync_failed_batch_blocks_loop:
  "closureSends [(''default:service/bad'', ErrorNew ''rejected'')] =
     [Some [(''default:service/bad'', ErrorNew ''rejected'')], None] \<and>
   c_loopStuck (snd (Sync exUnmarshal recordingApplier exBatch exCluster)) \<and>
   fst (Sync exUnmarshal recordingApplier exBatch
          (snd (Sync exUnmarshal recordingApplier exBatch exCluster))) = None"
proof -
  have free: "\<not> c_loopStuck exCluster" by (simp add: exCluster_def)
  have first: "Sync exUnmarshal recordingApplier exBatch exCluster =
      (Some (Some [(''default:service/bad'', ErrorNew ''rejected'')]),
       \<lparr>c_applierState =
          [Applied \<lparr>ao_bytes = ''one'', ao_Version = ''v1'', ao_Kind = ''Service'',
                    ao_Name = ''one'', ao_Namespace = ''default''\<rparr>,
           Applied \<lparr>ao_bytes = ''bad'', ao_Version = ''v1'', ao_Kind = ''Service'',
                    ao_Name = ''bad'', ao_Namespace = ''default''\<rparr>,
           Applied \<lparr>ao_bytes = ''three'', ao_Version = ''v1'', ao_Kind = ''Service'',
                    ao_Name = ''three'', ao_Namespace = ''default''\<rparr>],
         c_loopStuck = True\<rparr>)"
    using Sync_unstuck [OF free exRun] by simp
  show ?thesis
    unfolding first by (simp add: closureSends_def Sync_def)
qed

subsection \<open>The kick protocol\<close>







end
